theory Spec2Isabelle
  imports Main
begin

section \<open>Python values used by \<^verbatim>\<open>scripts/render.py\<close>\<close>

text \<open>
  A Python \<^verbatim>\<open>str\<close> is a sequence of Unicode code points; it is modelled as the list of
  its code points, so that \<^verbatim>\<open>len\<close>, slicing and the character classes of \<^verbatim>\<open>re\<close> count what
  Python counts. \<open>py\<close> turns an ASCII literal of the source into that representation.
\<close>

type_synonym pystr = "nat list"

abbreviation py :: "string \<Rightarrow> pystr" where
  "py s \<equiv> map of_char s"

text \<open>
  \<^verbatim>\<open>str.isspace\<close> on one code point. The pattern \<^verbatim>\<open>\s\<close> of \<^verbatim>\<open>re\<close> on a \<^verbatim>\<open>str\<close> and
  \<^verbatim>\<open>str.strip()\<close> without argument use the same class: tab to carriage return, the
  separators U+001C..U+001F, space, U+0085, U+00A0, U+1680, U+2000..U+200A, U+2028, U+2029,
  U+202F, U+205F and U+3000.
\<close>

definition isspace :: "nat \<Rightarrow> bool" where
  "isspace c =
     (c \<in> {9, 10, 11, 12, 13, 28, 29, 30, 31, 32, 133, 160, 5760, 8232, 8233, 8239, 8287, 12288}
      \<or> (8192 \<le> c \<and> c \<le> 8202))"

text \<open>\<^verbatim>\<open>s.strip()\<close>: leading and trailing whitespace removed.\<close>

definition strip :: "pystr \<Rightarrow> pystr" where
  "strip s = rev (dropWhile isspace (rev (dropWhile isspace s)))"

text \<open>
  \<^verbatim>\<open>re.sub(r"\s+", " ", s)\<close>: every maximal run of whitespace becomes one space (32).
\<close>

function sub_ws :: "pystr \<Rightarrow> pystr" where
  "sub_ws [] = []"
| "sub_ws (c # cs) =
     (if isspace c then 32 # sub_ws (dropWhile isspace cs) else c # sub_ws cs)"
  by pat_completeness auto
termination
  by (relation "measure length") (auto simp: length_dropWhile_le le_imp_less_Suc)

text \<open>
  The characters that \<^verbatim>\<open>re.sub(r"[^a-zA-Z0-9 _-]", "", s)\<close> keeps: \<^verbatim>\<open>a-z\<close>, \<^verbatim>\<open>A-Z\<close>,
  \<^verbatim>\<open>0-9\<close>, space, underscore and hyphen.
\<close>

definition allowed :: "nat \<Rightarrow> bool" where
  "allowed c =
     ((97 \<le> c \<and> c \<le> 122) \<or> (65 \<le> c \<and> c \<le> 90) \<or> (48 \<le> c \<and> c \<le> 57)
      \<or> c = 32 \<or> c = 95 \<or> c = 45)"

text \<open>
  The slice \<^verbatim>\<open>s[:n]\<close> for a Python \<^verbatim>\<open>int\<close> \<open>n\<close>: a negative bound counts from the end.
\<close>

definition py_prefix :: "int \<Rightarrow> 'a list \<Rightarrow> 'a list" where
  "py_prefix n xs =
     (if n < 0 then take (nat (int (length xs) + n)) xs else take (nat n) xs)"

text \<open>
  \<^verbatim>\<open>str.upper()\<close> maps every code point on its own. On ASCII it changes \<^verbatim>\<open>a-z\<close> only. For
  the code points from 128 on, the mapping is the Unicode case table of the Python runtime
  (one code point can become several); it is not part of this repository and is taken as
  the parameter \<open>U\<close>.
\<close>

definition ascii_upper :: "nat \<Rightarrow> nat" where
  "ascii_upper c = (if 97 \<le> c \<and> c \<le> 122 then c - 32 else c)"

definition upper_char :: "(nat \<Rightarrow> pystr) \<Rightarrow> nat \<Rightarrow> pystr" where
  "upper_char U c = (if c < 128 then [ascii_upper c] else U c)"

definition upper :: "(nat \<Rightarrow> pystr) \<Rightarrow> pystr \<Rightarrow> pystr" where
  "upper U s = concat (map (upper_char U) s)"

text \<open>\<^verbatim>\<open>sep.join(xs)\<close>.\<close>

fun join :: "pystr \<Rightarrow> pystr list \<Rightarrow> pystr" where
  "join sep [] = []"
| "join sep [x] = x"
| "join sep (x # y # ys) = x @ sep @ join sep (y # ys)"

text \<open>\<^verbatim>\<open>str(i)\<close> for an \<^verbatim>\<open>int\<close>: decimal digits, with a minus sign (45) when negative.\<close>

fun str_nat :: "nat \<Rightarrow> pystr" where
  "str_nat n = (if n < 10 then [48 + n] else str_nat (n div 10) @ [48 + n mod 10])"

declare str_nat.simps [simp del]

definition str_int :: "int \<Rightarrow> pystr" where
  "str_int i = (if i < 0 then 45 # str_nat (nat (- i)) else str_nat (nat i))"

text \<open>The truth value of \<^verbatim>\<open>d.get(k)\<close> for a string entry: absent and empty are false.\<close>

definition truthy :: "pystr option \<Rightarrow> bool" where
  "truthy x = (case x of None \<Rightarrow> False | Some l \<Rightarrow> l \<noteq> [])"

section \<open>Helpers\<close>

text \<open>
  \<^verbatim>\<open>env(name, default)\<close>: \<^verbatim>\<open>os.getenv\<close> is a lookup in the process environment, a map
  from names to strings.
\<close>

definition env :: "(pystr \<rightharpoonup> pystr) \<Rightarrow> pystr \<Rightarrow> pystr \<Rightarrow> pystr" where
  "env environ name dflt =
     (case environ name of
        None \<Rightarrow> dflt
      | Some v \<Rightarrow> if v \<noteq> [] then v else dflt)"

text \<open>\<^verbatim>\<open>safe_filename(s, max_len)\<close>; the source's default for \<open>max_len\<close> is 80.\<close>

definition safe_filename :: "pystr \<Rightarrow> int \<Rightarrow> pystr" where
  "safe_filename s max_len =
     (let s1 = strip (sub_ws s);
          s2 = filter allowed s1;
          s3 = strip (py_prefix max_len s2)
      in if s3 = [] then py ''short'' else s3)"

text \<open>Two neighbouring spaces somewhere in a string.\<close>

fun adjacent_spaces :: "pystr \<Rightarrow> bool" where
  "adjacent_spaces (a # b # cs) = ((a = 32 \<and> b = 32) \<or> adjacent_spaces (b # cs))"
| "adjacent_spaces _ = False"

section \<open>Errors, the outside world and the state of a run\<close>

text \<open>
  Every failure the source signals itself is a \<^verbatim>\<open>RuntimeError\<close> with a message.
  \<open>ExternalError\<close> stands for an exception raised inside a library call: a transport
  error or a non-success status of \<^verbatim>\<open>requests\<close> (\<^verbatim>\<open>raise_for_status\<close>), a response that is
  not JSON, a subprocess that cannot be started. \<open>IndexError\<close> is \<^verbatim>\<open>random.choice\<close> on an
  empty sequence. \<open>TypeError\<close> is the comparison \<^verbatim>\<open><=\<close> with \<^verbatim>\<open>None\<close> as an operand.
\<close>

datatype error = RuntimeError pystr | ExternalError pystr | IndexError | TypeError

text \<open>
  The search responses, typed after the fields the source reads. A field read with
  \<^verbatim>\<open>.get\<close> may be absent (\<open>None\<close>). A link or URL, where present, is a string; one that
  is JSON \<^verbatim>\<open>null\<close> reads like an absent one (\<^verbatim>\<open>.get\<close> gives \<^verbatim>\<open>None\<close>, which is false).
  A width or height, where the key is present, is an integer or JSON \<^verbatim>\<open>null\<close> (a
  rendition without dimensions): \<open>Some Null\<close> is the key present with \<^verbatim>\<open>null\<close>, and
  \<^verbatim>\<open>.get\<close> with a default then gives \<^verbatim>\<open>None\<close>, not the default.
\<close>

datatype dimension = Null | Num int

record video_file =
  link :: "pystr option"
  width :: "dimension option"
  height :: "dimension option"

record video =
  video_files :: "video_file list option"

record pexels_data =
  videos :: "video list option"

record rendition =
  url :: "pystr option"

record hit =
  hit_videos :: "(pystr \<rightharpoonup> rendition) option"

record pixabay_data =
  hits :: "hit list option"

text \<open>
  What a run does to the outside: the subprocesses it starts (with what they reported) and
  the HTTP requests it sends (URL, headers, query parameters), in order.
\<close>

datatype event =
  Subprocess "pystr list" "error + int"
| HttpGet pystr "(pystr \<times> pystr) list" "(pystr \<times> pystr) list"

text \<open>
  The state threaded through a run: the sizes of the files that exist, the events so far,
  and how many random numbers have been drawn.
\<close>

record state =
  files :: "pystr \<rightharpoonup> nat"
  trace :: "event list"
  draws :: nat

text \<open>
  The outside world of one run, as the source consumes it:
  the environment; \<^verbatim>\<open>int(time.time())\<close>; the files present at the start; the Unicode
  case table of \<^verbatim>\<open>str.upper\<close>; the random generator (\<open>randbelow w k n\<close> is the \<open>k\<close>-th
  draw, for a population of \<open>n\<close>); what a subprocess reports and does to the files; what the
  two search endpoints answer to a query and a key (after \<^verbatim>\<open>raise_for_status\<close> and
  \<^verbatim>\<open>r.json()\<close>); and the size of the body behind a download URL.
\<close>

record world =
  environ :: "pystr \<rightharpoonup> pystr"
  clock :: int
  files0 :: "pystr \<rightharpoonup> nat"
  unicode_upper :: "nat \<Rightarrow> pystr"
  randbelow :: "nat \<Rightarrow> nat \<Rightarrow> nat"
  subprocess :: "pystr list \<Rightarrow> (pystr \<rightharpoonup> nat) \<Rightarrow> (error + int) \<times> (pystr \<rightharpoonup> nat)"
  pexels_search :: "pystr \<Rightarrow> pystr \<Rightarrow> error + pexels_data"
  pixabay_search :: "pystr \<Rightarrow> pystr \<Rightarrow> error + pixabay_data"
  http_download :: "pystr \<Rightarrow> error + nat"

text \<open>
  \<^verbatim>\<open>random.choice(seq)\<close>: \<^verbatim>\<open>seq[self._randbelow(len(seq))]\<close>. The draw is reduced into the
  range that \<^verbatim>\<open>_randbelow\<close> guarantees.
\<close>

definition choice :: "world \<Rightarrow> 'a list \<Rightarrow> state \<Rightarrow> (error + 'a) \<times> state" where
  "choice w seq s =
     (if seq = [] then (Inl IndexError, s)
      else (Inr (seq ! (randbelow w (draws s) (length seq) mod length seq)),
            s\<lparr>draws := Suc (draws s)\<rparr>))"

text \<open>\<^verbatim>\<open>run(cmd)\<close>. Printing the captured output is not modelled.\<close>

definition run :: "world \<Rightarrow> pystr list \<Rightarrow> state \<Rightarrow> (error + unit) \<times> state" where
  "run w cmd s =
     (case subprocess w cmd (files s) of
        (p, fs) \<Rightarrow>
          (let s1 = s\<lparr>files := fs, trace := trace s @ [Subprocess cmd p]\<rparr>
           in case p of
                Inl e \<Rightarrow> (Inl e, s1)
              | Inr returncode \<Rightarrow>
                  if returncode \<noteq> 0
                  then (Inl (RuntimeError (py ''Command failed: '' @ join (py '' '') cmd)), s1)
                  else (Inr (), s1)))"

text \<open>\<^verbatim>\<open>pick_provider(provider)\<close>.\<close>

definition pick_provider :: "world \<Rightarrow> pystr \<Rightarrow> state \<Rightarrow> (error + pystr) \<times> state" where
  "pick_provider w provider s =
     (let p = strip (upper (unicode_upper w) (if provider = [] then py ''BOTH'' else provider))
      in if p = py ''PEXELS'' \<or> p = py ''PIXABAY'' then (Inr p, s)
         else choice w [py ''PEXELS'', py ''PIXABAY''] s)"

section \<open>Media fetch\<close>

text \<open>
  \<^verbatim>\<open>download_file(url, out_path)\<close>, as \<^verbatim>\<open>main\<close> calls it (no headers). Creating the parent
  directory is not modelled; a failed request leaves no file.
\<close>

definition download_file :: "world \<Rightarrow> pystr \<Rightarrow> pystr \<Rightarrow> state \<Rightarrow> (error + unit) \<times> state" where
  "download_file w u out_path s =
     (let s1 = s\<lparr>trace := trace s @ [HttpGet u [] []]\<rparr>
      in case http_download w u of
           Inl e \<Rightarrow> (Inl e, s1)
         | Inr n \<Rightarrow> (Inr (), s1\<lparr>files := (files s1)(out_path \<mapsto> n)\<rparr>))"

text \<open>\<^verbatim>\<open>v.get("video_files", [])\<close> and the test of the first loop of \<^verbatim>\<open>fetch_pexels_video\<close>.\<close>

definition files_of :: "video \<Rightarrow> video_file list" where
  "files_of v = (case video_files v of None \<Rightarrow> [] | Some fs \<Rightarrow> fs)"

text \<open>
  \<^verbatim>\<open>f.get("width", 0) <= f.get("height", 1)\<close>: the default is used for an absent key only;
  with \<^verbatim>\<open>None\<close> on either side the comparison raises \<^verbatim>\<open>TypeError\<close>.
\<close>

definition portrait :: "video_file \<Rightarrow> error + bool" where
  "portrait f =
     (case (case width f of None \<Rightarrow> Num 0 | Some x \<Rightarrow> x,
            case height f of None \<Rightarrow> Num 1 | Some y \<Rightarrow> y) of
        (Num a, Num b) \<Rightarrow> Inr (a \<le> b)
      | _ \<Rightarrow> Inl TypeError)"

text \<open>
  The first loop, over the files of all videos in order: a file without a link is passed
  over before its dimensions are compared (\<^verbatim>\<open>and\<close> does not evaluate its right operand);
  a comparison that raises ends the loop and the function.
\<close>

fun portrait_scan :: "video_file list \<Rightarrow> error + pystr list" where
  "portrait_scan [] = Inr []"
| "portrait_scan (f # fs) =
     (if truthy (link f)
      then (case portrait f of
              Inl e \<Rightarrow> Inl e
            | Inr b \<Rightarrow>
                (case portrait_scan fs of
                   Inl e \<Rightarrow> Inl e
                 | Inr ls \<Rightarrow> Inr (if b then the (link f) # ls else ls)))
      else portrait_scan fs)"

definition portrait_links :: "video list \<Rightarrow> error + pystr list" where
  "portrait_links vs = portrait_scan (concat (map files_of vs))"

text \<open>The fallback loop (any file with a link), and the pool after both loops.\<close>

definition any_links :: "video list \<Rightarrow> pystr list" where
  "any_links vs = [the (link f). v \<leftarrow> vs, f \<leftarrow> files_of v, truthy (link f)]"

definition pexels_candidates :: "video list \<Rightarrow> error + pystr list" where
  "pexels_candidates vs =
     (case portrait_links vs of
        Inl e \<Rightarrow> Inl e
      | Inr candidates \<Rightarrow> Inr (if candidates = [] then any_links vs else candidates))"

definition fetch_pexels_video :: "world \<Rightarrow> pystr \<Rightarrow> pystr \<Rightarrow> state \<Rightarrow> (error + pystr) \<times> state" where
  "fetch_pexels_video w query api_key s =
     (if api_key = []
      then (Inl (RuntimeError (py ''PEXELS_API_KEY is missing in GitHub Secrets.'')), s)
      else
        let s1 = s\<lparr>trace := trace s @
                   [HttpGet (py ''https://api.pexels.com/videos/search'')
                      [(py ''Authorization'', api_key)]
                      [(py ''query'', query), (py ''per_page'', py ''10''),
                       (py ''orientation'', py ''portrait'')]]\<rparr>
        in case pexels_search w query api_key of
             Inl e \<Rightarrow> (Inl e, s1)
           | Inr data \<Rightarrow>
               (let vs = (case videos data of None \<Rightarrow> [] | Some xs \<Rightarrow> xs)
                in if vs = []
                   then (Inl (RuntimeError (py ''No Pexels videos found for query.'')), s1)
                   else
                     case pexels_candidates vs of
                       Inl e \<Rightarrow> (Inl e, s1)
                     | Inr candidates \<Rightarrow>
                         if candidates = []
                         then (Inl (RuntimeError
                                 (py ''No downloadable Pexels video link found.'')), s1)
                         else choice w candidates s1))"

text \<open>
  The inner loop of \<^verbatim>\<open>fetch_pixabay_video\<close> over the tiers, for the \<^verbatim>\<open>videos\<close> entry of one
  hit: the URL appended for that hit, if any (the loop breaks after the first one).
\<close>

definition tiers :: "pystr list" where
  "tiers = [py ''large'', py ''medium'', py ''small'', py ''tiny'']"

fun first_url :: "(pystr \<rightharpoonup> rendition) \<Rightarrow> pystr list \<Rightarrow> pystr list" where
  "first_url vids [] = []"
| "first_url vids (k # ks) =
     (case vids k of
        None \<Rightarrow> first_url vids ks
      | Some r \<Rightarrow> if truthy (url r) then [the (url r)] else first_url vids ks)"

definition hit_candidate :: "hit \<Rightarrow> pystr list" where
  "hit_candidate h =
     first_url (case hit_videos h of None \<Rightarrow> Map.empty | Some vids \<Rightarrow> vids) tiers"

definition pixabay_candidates :: "hit list \<Rightarrow> pystr list" where
  "pixabay_candidates hs = concat (map hit_candidate hs)"

definition fetch_pixabay_video :: "world \<Rightarrow> pystr \<Rightarrow> pystr \<Rightarrow> state \<Rightarrow> (error + pystr) \<times> state" where
  "fetch_pixabay_video w query api_key s =
     (if api_key = []
      then (Inl (RuntimeError (py ''PIXABAY_API_KEY is missing in GitHub Secrets.'')), s)
      else
        let s1 = s\<lparr>trace := trace s @
                   [HttpGet (py ''https://pixabay.com/api/videos/'') []
                      [(py ''key'', api_key), (py ''q'', query), (py ''per_page'', py ''10'')]]\<rparr>
        in case pixabay_search w query api_key of
             Inl e \<Rightarrow> (Inl e, s1)
           | Inr data \<Rightarrow>
               (let hs = (case hits data of None \<Rightarrow> [] | Some xs \<Rightarrow> xs)
                in if hs = []
                   then (Inl (RuntimeError (py ''No Pixabay videos found for query.'')), s1)
                   else
                     let candidates = pixabay_candidates hs
                     in if candidates = []
                        then (Inl (RuntimeError (py ''No downloadable Pixabay video url found.'')), s1)
                        else choice w candidates s1))"

section \<open>Narration and rendering\<close>

text \<open>\<^verbatim>\<open>tts_edge(text, voice, out_wav)\<close>; creating the parent directory is not modelled.\<close>

definition tts_edge :: "world \<Rightarrow> pystr \<Rightarrow> pystr \<Rightarrow> pystr \<Rightarrow> state \<Rightarrow> (error + unit) \<times> state" where
  "tts_edge w txt voice out_wav s =
     run w [py ''edge-tts'', py ''--voice'', voice, py ''--text'', txt,
            py ''--write-media'', out_wav] s"

text \<open>The paths of \<^verbatim>\<open>main\<close> (POSIX separators) and its encoder command.\<close>

definition audio_wav :: pystr where "audio_wav = py ''out/voice.wav''"
definition bg_mp4 :: pystr where "bg_mp4 = py ''out/bg.mp4''"
definition final_mp4 :: pystr where "final_mp4 = py ''out/final.mp4''"

definition ffmpeg_cmd :: "pystr list" where
  "ffmpeg_cmd =
     [py ''ffmpeg'', py ''-y'',
      py ''-i'', bg_mp4,
      py ''-i'', audio_wav,
      py ''-vf'', py ''scale=1080:1920:force_original_aspect_ratio=increase,crop=1080:1920'',
      py ''-c:v'', py ''libx264'', py ''-pix_fmt'', py ''yuv420p'',
      py ''-c:a'', py ''aac'',
      py ''-shortest'',
      final_mp4]"

text \<open>The summary that \<^verbatim>\<open>main\<close> prints as JSON on success.\<close>

record summary =
  job_id :: pystr
  topic :: pystr
  provider :: pystr
  voice :: pystr
  output_path :: pystr

text \<open>
  \<^verbatim>\<open>main()\<close>. A run starts with no event and no draw. Creating the output directory and
  printing the progress lines are not modelled; the result is the error that ends the run
  or the summary.
\<close>

definition main :: "world \<Rightarrow> (error + summary) \<times> state" where
  "main w =
     (let s0 = \<lparr>files = files0 w, trace = [], draws = 0\<rparr>;
          job_id = env (environ w) (py ''JOB_ID'') (py ''job_'' @ str_int (clock w));
          topic = env (environ w) (py ''TOPIC'') (py ''trend'');
          script = env (environ w) (py ''SCRIPT'') [];
          provider_pref = env (environ w) (py ''PROVIDER'') (py ''BOTH'');
          voice = env (environ w) (py ''VOICE'') (py ''en-US-AriaNeural'');
          pexels_key = env (environ w) (py ''PEXELS_API_KEY'') [];
          pixabay_key = env (environ w) (py ''PIXABAY_API_KEY'') []
      in if strip script = []
         then (Inl (RuntimeError (py ''SCRIPT is empty. Pass script input from n8n.'')), s0)
         else
           case tts_edge w script voice audio_wav s0 of
             (Inl e, s1) \<Rightarrow> (Inl e, s1)
           | (Inr _, s1) \<Rightarrow>
               (let query = safe_filename topic 60
                in case pick_provider w provider_pref s1 of
                     (Inl e, s2) \<Rightarrow> (Inl e, s2)
                   | (Inr chosen, s2) \<Rightarrow>
                       (case (if chosen = py ''PEXELS''
                              then fetch_pexels_video w query pexels_key s2
                              else fetch_pixabay_video w query pixabay_key s2) of
                          (Inl e, s3) \<Rightarrow> (Inl e, s3)
                        | (Inr video_url, s3) \<Rightarrow>
                            (case download_file w video_url bg_mp4 s3 of
                               (Inl e, s4) \<Rightarrow> (Inl e, s4)
                             | (Inr _, s4) \<Rightarrow>
                                 (case run w ffmpeg_cmd s4 of
                                    (Inl e, s5) \<Rightarrow> (Inl e, s5)
                                  | (Inr _, s5) \<Rightarrow>
                                      if (case files s5 final_mp4 of
                                            None \<Rightarrow> True
                                          | Some st_size \<Rightarrow> st_size < 10000)
                                      then (Inl (RuntimeError
                                              (py ''final.mp4 not created or too small.'')), s5)
                                      else (Inr \<lparr>job_id = job_id, topic = topic,
                                                 provider = chosen, voice = voice,
                                                 output_path = final_mp4\<rparr>, s5))))))"

section \<open>Notions used to state the properties\<close>

text \<open>
  Case-insensitive match of two strings, as the spec words the provider rule: equal up to
  the case of the ASCII letters.
\<close>

definition matches_ignoring_case :: "pystr \<Rightarrow> pystr \<Rightarrow> bool" where
  "matches_ignoring_case a b = (map ascii_upper a = map ascii_upper b)"

text \<open>
  The links of the files that have a non-empty link and pass the portrait test, in the
  order of the response.
\<close>

definition portrait_pool :: "video list \<Rightarrow> pystr list" where
  "portrait_pool vs =
     [the (link f). f \<leftarrow> concat (map files_of vs), truthy (link f) \<and> portrait f = Inr True]"

text \<open>One tier of one hit: its URL when the tier is present with a non-empty URL.\<close>

definition tier_url :: "hit \<Rightarrow> pystr \<Rightarrow> pystr option" where
  "tier_url h k =
     (case hit_videos h of
        None \<Rightarrow> None
      | Some vids \<Rightarrow>
          (case vids k of
             None \<Rightarrow> None
           | Some r \<Rightarrow> if truthy (url r) then url r else None))"

section \<open>Sample responses and worlds\<close>

text \<open>
  Concrete responses and worlds, used to evaluate the model: a Pexels response with a
  portrait file, a landscape file and a file without dimensions.
\<close>

definition sample_videos :: "video list" where
  "sample_videos =
     [\<lparr>video_files = Some
         [\<lparr>link = Some (py ''https://videos.pexels.com/a.mp4''),
            width = Some (Num 1080), height = Some (Num 1920)\<rparr>,
          \<lparr>link = Some (py ''https://videos.pexels.com/b.mp4''),
            width = Some (Num 1920), height = Some (Num 1080)\<rparr>,
          \<lparr>link = Some (py ''https://videos.pexels.com/c.mp4''),
            width = None, height = None\<rparr>]\<rparr>]"

text \<open>A Pexels response whose only portrait file has no link.\<close>

definition mixed_videos :: "video list" where
  "mixed_videos =
     [\<lparr>video_files = Some
         [\<lparr>link = None, width = Some (Num 1080), height = Some (Num 1920)\<rparr>,
          \<lparr>link = Some (py ''https://videos.pexels.com/wide.mp4''),
            width = Some (Num 1920), height = Some (Num 1080)\<rparr>]\<rparr>]"

text \<open>
  A Pexels response with a portrait file and a streaming rendition whose width and height
  are \<^verbatim>\<open>null\<close>; both have a link.
\<close>

definition hls_videos :: "video list" where
  "hls_videos =
     [\<lparr>video_files = Some
         [\<lparr>link = Some (py ''https://videos.pexels.com/hd.mp4''),
            width = Some (Num 1080), height = Some (Num 1920)\<rparr>,
          \<lparr>link = Some (py ''https://videos.pexels.com/stream.m3u8''),
            width = Some Null, height = Some Null\<rparr>]\<rparr>]"

text \<open>A Pexels response with results, none of which has a link.\<close>

definition linkless_videos :: "video list" where
  "linkless_videos =
     [\<lparr>video_files = Some
         [\<lparr>link = Some [], width = Some (Num 1080), height = Some (Num 1920)\<rparr>]\<rparr>,
      \<lparr>video_files = None\<rparr>]"

text \<open>
  Pixabay hits: one whose \<^verbatim>\<open>large\<close> tier is present with an empty URL (what the provider
  returns for a size it does not have), and one without any URL.
\<close>

definition empty_large_vids :: "pystr \<rightharpoonup> rendition" where
  "empty_large_vids =
     [py ''large'' \<mapsto> \<lparr>url = Some []\<rparr>,
      py ''medium'' \<mapsto> \<lparr>url = Some (py ''https://cdn.pixabay.com/medium.mp4'')\<rparr>,
      py ''tiny'' \<mapsto> \<lparr>url = Some (py ''https://cdn.pixabay.com/tiny.mp4'')\<rparr>]"

definition empty_large_hit :: hit where
  "empty_large_hit = \<lparr>hit_videos = Some empty_large_vids\<rparr>"

definition linkless_hit :: hit where
  "linkless_hit = \<lparr>hit_videos = Some [py ''large'' \<mapsto> \<lparr>url = None\<rparr>]\<rparr>"

text \<open>
  A world in which every stage succeeds and the encoder writes a final file of exactly
  10000 bytes.
\<close>

definition sample_environ :: "pystr \<rightharpoonup> pystr" where
  "sample_environ =
     [py ''SCRIPT'' \<mapsto> py ''Hello world'',
      py ''TOPIC'' \<mapsto> py ''city night'',
      py ''PROVIDER'' \<mapsto> py ''pexels'',
      py ''PEXELS_API_KEY'' \<mapsto> py ''k1'',
      py ''PIXABAY_API_KEY'' \<mapsto> py ''k2'']"

definition sample_subprocess ::
  "pystr list \<Rightarrow> (pystr \<rightharpoonup> nat) \<Rightarrow> (error + int) \<times> (pystr \<rightharpoonup> nat)" where
  "sample_subprocess cmd fs =
     (if cmd = ffmpeg_cmd then (Inr 0, fs(final_mp4 \<mapsto> 10000))
      else (Inr 0, fs(audio_wav \<mapsto> 48000)))"

definition boundary_world :: world where
  "boundary_world =
     \<lparr>environ = sample_environ,
      clock = 1700000000,
      files0 = Map.empty,
      unicode_upper = (\<lambda>c. [c]),
      randbelow = (\<lambda>k n. 1),
      subprocess = sample_subprocess,
      pexels_search = (\<lambda>q k. Inr \<lparr>videos = Some sample_videos\<rparr>),
      pixabay_search = (\<lambda>q k. Inr \<lparr>hits = Some [empty_large_hit]\<rparr>),
      http_download = (\<lambda>u. Inr 250000)\<rparr>"

text \<open>A state with no file, no event and no draw.\<close>

definition fresh :: state where
  "fresh = \<lparr>files = Map.empty, trace = [], draws = 0\<rparr>"

text \<open>The same world, with the Pexels response whose only portrait file has no link.\<close>

definition mixed_world :: world where
  "mixed_world = boundary_world\<lparr>pexels_search := (\<lambda>q k. Inr \<lparr>videos = Some mixed_videos\<rparr>)\<rparr>"

text \<open>The same world, with the Pexels response that has a rendition with null dimensions.\<close>

definition hls_world :: world where
  "hls_world = boundary_world\<lparr>pexels_search := (\<lambda>q k. Inr \<lparr>videos = Some hls_videos\<rparr>)\<rparr>"

text \<open>The same world, with both searches answering without any result.\<close>

definition empty_world :: world where
  "empty_world =
     boundary_world\<lparr>pexels_search := (\<lambda>q k. Inr \<lparr>videos = Some []\<rparr>),
                     pixabay_search := (\<lambda>q k. Inr \<lparr>hits = None\<rparr>)\<rparr>"

text \<open>The same world, with both searches answering with results that carry no link.\<close>

definition linkless_world :: world where
  "linkless_world =
     boundary_world\<lparr>pexels_search := (\<lambda>q k. Inr \<lparr>videos = Some linkless_videos\<rparr>),
                     pixabay_search := (\<lambda>q k. Inr \<lparr>hits = Some [linkless_hit]\<rparr>)\<rparr>"

text \<open>The same world, with a script made of whitespace only (space, tab, newline).\<close>

definition blank_script_world :: world where
  "blank_script_world = boundary_world\<lparr>environ := [py ''SCRIPT'' \<mapsto> [32, 9, 10, 32]]\<rparr>"

text \<open>The same world, with subprocesses that exit with status 0 and write no file.\<close>

definition silent_subprocess ::
  "pystr list \<Rightarrow> (pystr \<rightharpoonup> nat) \<Rightarrow> (error + int) \<times> (pystr \<rightharpoonup> nat)" where
  "silent_subprocess cmd fs = (Inr 0, fs)"

definition silent_encoder_world :: world where
  "silent_encoder_world = boundary_world\<lparr>subprocess := silent_subprocess\<rparr>"

section \<open>Properties of the string helpers\<close>

lemma strip_length: "length (strip s) \<le> length s"
  unfolding strip_def
  by (metis length_rev length_dropWhile_le le_trans)

lemma strip_set: "set (strip s) \<subseteq> set s"
  unfolding strip_def by (auto dest!: set_dropWhileD)

lemma rstrip_Cons: "\<not> P x \<Longrightarrow> rev (dropWhile P (rev (x # xs))) = x # rev (dropWhile P (rev xs))"
  using dropWhile_append3[of P x "rev xs" "[]"] by simp

lemma strip_id: "s \<noteq> [] \<Longrightarrow> \<not> isspace (hd s) \<Longrightarrow> \<not> isspace (last s) \<Longrightarrow> strip s = s"
proof -
  assume a: "s \<noteq> []" "\<not> isspace (hd s)" "\<not> isspace (last s)"
  then have "dropWhile isspace s = s" by (simp add: dropWhile_eq_self_iff)
  moreover from a have "dropWhile isspace (rev s) = rev s"
    by (simp add: dropWhile_eq_self_iff hd_rev)
  ultimately show ?thesis by (simp add: strip_def)
qed

lemma strip_last: "strip s \<noteq> [] \<Longrightarrow> \<not> isspace (last (strip s))"
  unfolding strip_def by (simp add: last_rev hd_dropWhile)

lemma strip_hd: "strip s \<noteq> [] \<Longrightarrow> \<not> isspace (hd (strip s))"
proof -
  assume a: "strip s \<noteq> []"
  let ?d = "dropWhile isspace s"
  have "?d = [] \<Longrightarrow> strip s = []"
    unfolding strip_def by (simp only: rev.simps dropWhile.simps)
  with a have d: "?d \<noteq> []" by blast
  then obtain x xs where dx: "?d = x # xs" by (cases ?d) auto
  with hd_dropWhile[OF d] have nx: "\<not> isspace x" by simp
  have "strip s = rev (dropWhile isspace (rev (x # xs)))" by (simp only: strip_def dx)
  also have "\<dots> = x # rev (dropWhile isspace (rev xs))" using nx by (rule rstrip_Cons)
  finally show ?thesis using nx by simp
qed

lemma sub_ws_length: "length (sub_ws s) \<le> length s"
proof (induction s rule: sub_ws.induct)
  case 1 show ?case by simp
next
  case (2 c cs)
  show ?case
  proof (cases "isspace c")
    case True
    with 2 have "length (sub_ws (dropWhile isspace cs)) \<le> length (dropWhile isspace cs)" by simp
    also have "\<dots> \<le> length cs" by (rule length_dropWhile_le)
    finally show ?thesis using True by simp
  next
    case False with 2 show ?thesis by simp
  qed
qed

lemma sub_ws_id: "\<forall>c\<in>set s. isspace c \<longrightarrow> c = 32 \<Longrightarrow> \<not> adjacent_spaces s \<Longrightarrow> sub_ws s = s"
proof (induction s rule: sub_ws.induct)
  case 1 show ?case by simp
next
  case (2 c cs)
  show ?case
  proof (cases "isspace c")
    case True
    with 2(3) have c: "c = 32" by simp
    have nh: "cs \<noteq> [] \<Longrightarrow> \<not> isspace (hd cs)"
    proof
      assume ne: "cs \<noteq> []" and sp: "isspace (hd cs)"
      then obtain b bs where cs: "cs = b # bs" by (cases cs) auto
      with sp 2(3) have "b = 32" by simp
      with c cs 2(4) show False by simp
    qed
    then have "cs = [] \<or> \<not> isspace (hd cs)" by blast
    then have dw: "dropWhile isspace cs = cs" by (simp only: dropWhile_eq_self_iff)
    have "\<not> adjacent_spaces cs" using 2(4) by (cases cs) auto
    with 2(1)[OF True] 2(3) dw have "sub_ws cs = cs" by simp
    with True c dw show ?thesis by simp
  next
    case False
    have "\<not> adjacent_spaces cs" using 2(4) by (cases cs) auto
    with 2(2)[OF False] 2(3) have "sub_ws cs = cs" by simp
    with False show ?thesis by simp
  qed
qed

lemma sub_ws_shrinks: "adjacent_spaces s \<Longrightarrow> length (sub_ws s) < length s"
proof (induction s rule: sub_ws.induct)
  case 1 then show ?case by simp
next
  case (2 c cs)
  then obtain b bs where cs: "cs = b # bs" by (cases cs) auto
  show ?case
  proof (cases "c = 32 \<and> b = 32")
    case True
    then have sp: "isspace c" "isspace b" by (simp_all add: isspace_def)
    have "length (sub_ws (dropWhile isspace cs)) \<le> length (dropWhile isspace cs)"
      by (rule sub_ws_length)
    also have "\<dots> = length (dropWhile isspace bs)" using sp cs by simp
    also have "\<dots> \<le> length bs" by (rule length_dropWhile_le)
    finally show ?thesis using sp cs by simp
  next
    case False
    with 2(3) cs have adj: "adjacent_spaces cs" by auto
    show ?thesis
    proof (cases "isspace c")
      case True
      show ?thesis
      proof (cases "isspace b")
        case sb: True
        have "length (sub_ws (dropWhile isspace cs)) \<le> length (dropWhile isspace cs)"
          by (rule sub_ws_length)
        also have "\<dots> = length (dropWhile isspace bs)" using sb cs by simp
        also have "\<dots> \<le> length bs" by (rule length_dropWhile_le)
        finally show ?thesis using True cs by simp
      next
        case nb: False
        then have "dropWhile isspace cs = cs" using cs by simp
        with 2(1)[OF True] adj have "length (sub_ws (dropWhile isspace cs)) < length cs" by simp
        then show ?thesis using True by simp
      qed
    next
      case F: False
      with 2(2) adj show ?thesis by simp
    qed
  qed
qed

lemma allowed_space: "allowed c \<Longrightarrow> isspace c \<Longrightarrow> c = 32"
  by (auto simp: allowed_def isspace_def)

lemma short_props: "set (py ''short'') \<subseteq> Collect allowed" "\<not> adjacent_spaces (py ''short'')"
  "\<not> isspace (hd (py ''short''))" "\<not> isspace (last (py ''short''))" "length (py ''short'') = 5"
  by (simp_all add: allowed_def isspace_def)

lemma py_prefix_length: "0 \<le> n \<Longrightarrow> length (py_prefix n xs) \<le> nat n"
  by (simp add: py_prefix_def)

lemma py_prefix_le: "length (py_prefix n xs) \<le> length xs"
  by (auto simp: py_prefix_def)

lemma py_prefix_id: "int (length xs) \<le> n \<Longrightarrow> py_prefix n xs = xs"
  by (simp add: py_prefix_def)

lemma py_prefix_set: "set (py_prefix n xs) \<subseteq> set xs"
  by (auto simp: py_prefix_def dest: in_set_takeD)

lemma safe_filename_allowed: "set (safe_filename s n) \<subseteq> Collect allowed"
proof -
  have "set (strip (py_prefix n (filter allowed (strip (sub_ws s))))) \<subseteq> Collect allowed"
    using strip_set py_prefix_set by fastforce
  then show ?thesis using short_props(1) by (simp add: safe_filename_def Let_def del: list.map)
qed

lemma safe_filename_nonempty: "safe_filename s n \<noteq> []"
  by (simp add: safe_filename_def Let_def)

lemma safe_filename_ends: "\<not> isspace (hd (safe_filename s n))" "\<not> isspace (last (safe_filename s n))"
  using strip_hd strip_last short_props(3,4) by (simp_all add: safe_filename_def Let_def del: list.map)

lemma safe_filename_length: "5 \<le> n \<Longrightarrow> int (length (safe_filename s n)) \<le> n"
proof -
  assume n: "5 \<le> n"
  let ?p = "py_prefix n (filter allowed (strip (sub_ws s)))"
  have "length (strip ?p) \<le> length ?p" by (rule strip_length)
  also have "\<dots> \<le> nat n" using n by (simp add: py_prefix_length)
  finally have "int (length (strip ?p)) \<le> n" using n by simp
  then show ?thesis using n by (simp add: safe_filename_def Let_def)
qed

lemma safe_filename_fixed:
  assumes t: "set t \<subseteq> Collect allowed" "t \<noteq> []" "\<not> isspace (hd t)" "\<not> isspace (last t)"
     "int (length t) \<le> n" "\<not> adjacent_spaces t"
  shows "safe_filename t n = t"
proof -
  have "sub_ws t = t" using t(1,6) by (intro sub_ws_id) (auto dest: allowed_space)
  moreover have st: "strip t = t" using t(2,3,4) by (rule strip_id)
  moreover have "filter allowed t = t" using t(1) by (auto simp: filter_id_conv)
  moreover have "py_prefix n t = t" using t(5) by (rule py_prefix_id)
  ultimately show ?thesis using t(2) by (simp add: safe_filename_def Let_def del: list.map)
qed

lemma safe_filename_changes:
  assumes "adjacent_spaces t"
  shows "safe_filename t n \<noteq> t"
proof -
  let ?s3 = "strip (py_prefix n (filter allowed (strip (sub_ws t))))"
  have "length ?s3 \<le> length (py_prefix n (filter allowed (strip (sub_ws t))))" by (rule strip_length)
  also have "\<dots> \<le> length (filter allowed (strip (sub_ws t)))" by (rule py_prefix_le)
  also have "\<dots> \<le> length (strip (sub_ws t))" by simp
  also have "\<dots> \<le> length (sub_ws t)" by (rule strip_length)
  also have "\<dots> < length t" using assms by (rule sub_ws_shrinks)
  finally have "?s3 \<noteq> t" by auto
  moreover have "py ''short'' \<noteq> t" using assms short_props(2) by auto
  ultimately show ?thesis by (simp add: safe_filename_def Let_def del: list.map)
qed

lemma safe_filename_twice:
  "5 \<le> n \<Longrightarrow>
   (safe_filename (safe_filename s n) n = safe_filename s n) = (\<not> adjacent_spaces (safe_filename s n))"
  using safe_filename_fixed[OF safe_filename_allowed safe_filename_nonempty safe_filename_ends safe_filename_length]
    safe_filename_changes by blast


lemma sub_ws_set: "set (sub_ws s) \<subseteq> insert 32 (set s)"
proof (induction s rule: sub_ws.induct)
  case 1 show ?case by simp
next
  case (2 c cs)
  show ?case
  proof (cases "isspace c")
    case True
    with 2 have "set (sub_ws (dropWhile isspace cs)) \<subseteq> insert 32 (set (dropWhile isspace cs))" by simp
    also have "\<dots> \<subseteq> insert 32 (set cs)" by (auto dest: set_dropWhileD)
    finally show ?thesis using True by auto
  next
    case False with 2 show ?thesis by auto
  qed
qed

lemma strip_all_space: "\<forall>c\<in>set s. isspace c \<Longrightarrow> strip s = []"
proof -
  assume "\<forall>c\<in>set s. isspace c"
  then have d: "dropWhile isspace s = []" by (simp only: dropWhile_eq_Nil_conv)
  show ?thesis unfolding strip_def d by simp
qed

lemma safe_filename_disallowed: "\<forall>c\<in>set s. \<not> allowed c \<Longrightarrow> safe_filename s n = py ''short''"
proof -
  assume a: "\<forall>c\<in>set s. \<not> allowed c"
  have "set (strip (sub_ws s)) \<subseteq> insert 32 (set s)"
    using strip_set sub_ws_set by blast
  with a have "\<forall>c\<in>set (filter allowed (strip (sub_ws s))). c = 32" by auto
  then have "\<forall>c\<in>set (py_prefix n (filter allowed (strip (sub_ws s)))). isspace c"
    using py_prefix_set by (fastforce simp: isspace_def)
  then have "strip (py_prefix n (filter allowed (strip (sub_ws s)))) = []"
    by (rule strip_all_space)
  then show ?thesis by (simp add: safe_filename_def Let_def)
qed

text \<open>
  Claim C8, as amended. Sanitizing with a maximum length of at least 5 (the pipeline uses 60,
  the default is 80): sanitizing an already sanitized string returns it unchanged exactly
  when the sanitized string has no two neighbouring spaces; two neighbouring spaces are left
  behind when disallowed characters between two spaces are removed after the whitespace
  runs were collapsed, and the second pass collapses them. For every maximum length, a
  string made only of characters outside letters, digits, space, hyphen and underscore is
  sanitized to the fallback \<^verbatim>\<open>"short"\<close>.
\<close>

theorem safe_filename_idempotent_amended:
  "(5 \<le> n \<longrightarrow>
      (safe_filename (safe_filename s n) n = safe_filename s n)
        = (\<not> adjacent_spaces (safe_filename s n)))
   \<and> ((\<forall>c\<in>set s. \<not> allowed c) \<longrightarrow> safe_filename s m = py ''short'')"
  using safe_filename_twice safe_filename_disallowed by blast

theorem safe_filename_idempotent_amended_witness:
  "safe_filename (safe_filename (py ''My   first_topic-2!'') 60) 60
     = safe_filename (py ''My   first_topic-2!'') 60
   \<and> safe_filename (py ''?!#'') 60 = py ''short''"
  using safe_filename_idempotent_amended[where n = 60 and s = "py ''My   first_topic-2!''" and m = 60]
    safe_filename_idempotent_amended[where n = 60 and s = "py ''?!#''" and m = 60]
  by (simp add: safe_filename_def strip_def allowed_def isspace_def py_prefix_def)

text \<open>
  Claim C8 as stated fails: \<^verbatim>\<open>"a ! b"\<close> is sanitized to \<^verbatim>\<open>"a  b"\<close> (two spaces), and
  sanitizing that gives \<^verbatim>\<open>"a b"\<close>.
\<close>

theorem safe_filename_not_idempotent:
  "safe_filename (py ''a ! b'') 60 = py ''a  b''
   \<and> safe_filename (safe_filename (py ''a ! b'') 60) 60 = py ''a b''
   \<and> safe_filename (safe_filename (py ''a ! b'') 60) 60 \<noteq> safe_filename (py ''a ! b'') 60"
  by (simp add: safe_filename_def strip_def allowed_def isspace_def py_prefix_def)

section \<open>Configuration\<close>

lemma env_empty_unset: "env (e(name \<mapsto> [])) x d = env (e(name := None)) x d"
  by (simp add: env_def)

lemma environ_update:
  "environ (w\<lparr>environ := e\<rparr>) = e" "clock (w\<lparr>environ := e\<rparr>) = clock w"
  "files0 (w\<lparr>environ := e\<rparr>) = files0 w"
  "unicode_upper (w\<lparr>environ := e\<rparr>) = unicode_upper w"
  "randbelow (w\<lparr>environ := e\<rparr>) = randbelow w"
  "subprocess (w\<lparr>environ := e\<rparr>) = subprocess w"
  "pexels_search (w\<lparr>environ := e\<rparr>) = pexels_search w"
  "pixabay_search (w\<lparr>environ := e\<rparr>) = pixabay_search w"
  "http_download (w\<lparr>environ := e\<rparr>) = http_download w"
  by simp_all

lemma choice_ignores_environ: "choice (w\<lparr>environ := e\<rparr>) = choice w"
  unfolding fun_eq_iff choice_def environ_update by simp

lemma ops_ignore_environ:
  "tts_edge (w\<lparr>environ := e\<rparr>) = tts_edge w"
  "run (w\<lparr>environ := e\<rparr>) = run w"
  "pick_provider (w\<lparr>environ := e\<rparr>) = pick_provider w"
  "fetch_pexels_video (w\<lparr>environ := e\<rparr>) = fetch_pexels_video w"
  "fetch_pixabay_video (w\<lparr>environ := e\<rparr>) = fetch_pixabay_video w"
  "download_file (w\<lparr>environ := e\<rparr>) = download_file w"
  unfolding fun_eq_iff tts_edge_def run_def pick_provider_def
    fetch_pexels_video_def fetch_pixabay_video_def download_file_def
    choice_ignores_environ environ_update
  by (rule allI refl)+

lemma main_empty_unset:
  "main (w\<lparr>environ := (environ w)(name \<mapsto> [])\<rparr>)
     = main (w\<lparr>environ := (environ w)(name := None)\<rparr>)"
  unfolding main_def environ_update ops_ignore_environ env_empty_unset by (rule refl)

text \<open>
  Claim C9. \<^verbatim>\<open>env\<close> returns the default both for a variable that is unset and for one set
  to the empty string, and returns a non-empty value unchanged; with \<^verbatim>\<open>PROVIDER\<close> set to
  the empty string the preference read is the default \<^verbatim>\<open>"BOTH"\<close>, and a whole run cannot
  tell a variable set to the empty string from an unset one.
\<close>

theorem env_empty_is_unset:
  "env (e(name := None)) name d = d
   \<and> env (e(name \<mapsto> [])) name d = d
   \<and> env (e(name \<mapsto> c # cs)) name d = c # cs
   \<and> env ((environ w)(py ''PROVIDER'' \<mapsto> [])) (py ''PROVIDER'') (py ''BOTH'') = py ''BOTH''
   \<and> main (w\<lparr>environ := (environ w)(name \<mapsto> [])\<rparr>)
       = main (w\<lparr>environ := (environ w)(name := None)\<rparr>)"
  using main_empty_unset by (simp add: env_def)

section \<open>Provider fetch\<close>

text \<open>
  Claim C7. With an empty API key both fetch functions raise the missing-key error (the
  spec's \<^verbatim>\<open>CredentialError\<close>) and leave the state as it was: no request is added to the
  trace.
\<close>

theorem fetch_without_key:
  "fetch_pexels_video w q [] s
     = (Inl (RuntimeError (py ''PEXELS_API_KEY is missing in GitHub Secrets.'')), s)
   \<and> fetch_pixabay_video w q [] s
     = (Inl (RuntimeError (py ''PIXABAY_API_KEY is missing in GitHub Secrets.'')), s)"
  by (simp add: fetch_pexels_video_def fetch_pixabay_video_def)

lemma any_links_set:
  "set (any_links vs)
     = {the (link f) | v f. v \<in> set vs \<and> f \<in> set (files_of v) \<and> truthy (link f)}"
  by (auto simp: any_links_def)

lemma portrait_pool_set:
  "set (portrait_pool vs)
     = {the (link f) | v f.
          v \<in> set vs \<and> f \<in> set (files_of v) \<and> truthy (link f) \<and> portrait f = Inr True}"
  by (auto simp: portrait_pool_def)

lemma portrait_absent: "width f = None \<Longrightarrow> height f = None \<Longrightarrow> portrait f = Inr True"
  by (simp add: portrait_def)

lemma portrait_null: "width f = Some Null \<or> height f = Some Null \<Longrightarrow> portrait f = Inl TypeError"
  by (auto simp: portrait_def split: option.splits dimension.splits)

lemma portrait_typed:
  "width f \<noteq> Some Null \<Longrightarrow> height f \<noteq> Some Null \<Longrightarrow> \<exists>b. portrait f = Inr b"
  by (auto simp: portrait_def split: option.splits dimension.splits)

lemma portrait_scan_Inr:
  "portrait_scan fs = Inr ls \<Longrightarrow>
   ls = [the (link f). f \<leftarrow> fs, truthy (link f) \<and> portrait f = Inr True]"
  by (induction fs arbitrary: ls) (auto split: if_splits sum.splits)

lemma portrait_scan_typed:
  "\<forall>f\<in>set fs. truthy (link f) \<longrightarrow> width f \<noteq> Some Null \<and> height f \<noteq> Some Null \<Longrightarrow>
   \<exists>ls. portrait_scan fs = Inr ls"
proof (induction fs)
  case Nil
  show ?case by simp
next
  case (Cons f fs)
  then obtain ls where ls: "portrait_scan fs = Inr ls" by auto
  show ?case
  proof (cases "truthy (link f)")
    case True
    with Cons.prems obtain b where "portrait f = Inr b" using portrait_typed[of f] by auto
    with True ls show ?thesis by simp
  next
    case False
    with ls show ?thesis by simp
  qed
qed

lemma portrait_links_Inr: "portrait_links vs = Inr ls \<Longrightarrow> ls = portrait_pool vs"
  unfolding portrait_links_def portrait_pool_def by (rule portrait_scan_Inr)

lemma portrait_links_typed:
  assumes "\<forall>v\<in>set vs. \<forall>f\<in>set (files_of v).
             truthy (link f) \<longrightarrow> width f \<noteq> Some Null \<and> height f \<noteq> Some Null"
  shows "portrait_links vs = Inr (portrait_pool vs)"
proof -
  from assms have "\<forall>f\<in>set (concat (map files_of vs)).
      truthy (link f) \<longrightarrow> width f \<noteq> Some Null \<and> height f \<noteq> Some Null" by auto
  from portrait_scan_typed[OF this] obtain ls where "portrait_links vs = Inr ls"
    unfolding portrait_links_def by blast
  with portrait_links_Inr[OF this] show ?thesis by simp
qed

lemma absent_dimensions_pooled:
  assumes "v \<in> set vs" "f \<in> set (files_of v)" "link f = Some l" "l \<noteq> []"
    "width f = None" "height f = None"
  shows "portrait f = Inr True" and "portrait_links vs = Inr ls \<Longrightarrow> l \<in> set ls"
proof -
  show p: "portrait f = Inr True" using assms(5,6) by (rule portrait_absent)
  have t: "truthy (link f)" using assms(3,4) by (simp add: truthy_def)
  have "the (link f) \<in> set (portrait_pool vs)"
    unfolding portrait_pool_set using assms(1,2) p t by blast
  then have "l \<in> set (portrait_pool vs)" using assms(3) by simp
  then show "portrait_links vs = Inr ls \<Longrightarrow> l \<in> set ls"
    using portrait_links_Inr by blast
qed

text \<open>
  Claim C10. A file with a link and without the width and height keys passes the portrait
  test (0 \<le> 1), and its link is pooled when the loop completes (the lemma above). Where a
  file with a link reports its dimensions as \<^verbatim>\<open>null\<close>, the source does not default: the
  comparison raises \<^verbatim>\<open>TypeError\<close>, and the fetch fails with it instead of pooling the link,
  here although the response also holds a portrait file.
\<close>

theorem null_dimensions_raise:
  "portrait \<lparr>link = Some (py ''https://videos.pexels.com/c.mp4''),
             width = None, height = None\<rparr> = Inr True
   \<and> portrait \<lparr>link = Some (py ''https://videos.pexels.com/stream.m3u8''),
               width = Some Null, height = Some Null\<rparr> = Inl TypeError
   \<and> portrait_links hls_videos = Inl TypeError
   \<and> fst (fetch_pexels_video hls_world (py ''city night'') (py ''k1'') fresh) = Inl TypeError"
  by (simp add: portrait_def portrait_links_def hls_videos_def files_of_def truthy_def
      fetch_pexels_video_def pexels_candidates_def hls_world_def boundary_world_def fresh_def)

section \<open>Candidate selection\<close>

lemma choice_nonempty:
  "seq \<noteq> [] \<Longrightarrow> \<exists>x. choice w seq s = (Inr x, s\<lparr>draws := Suc (draws s)\<rparr>) \<and> x \<in> set seq"
  by (simp add: choice_def)

lemma choice_fst: "seq \<noteq> [] \<Longrightarrow> \<exists>x. fst (choice w seq s) = Inr x \<and> x \<in> set seq"
  using choice_nonempty[of seq w s] by auto

lemma any_links_Nil:
  "(any_links vs = []) = (\<forall>v\<in>set vs. \<forall>f\<in>set (files_of v). \<not> truthy (link f))"
proof -
  have "(any_links vs = []) = (set (any_links vs) = {})" by simp
  also have "\<dots> = (\<forall>v\<in>set vs. \<forall>f\<in>set (files_of v). \<not> truthy (link f))"
    unfolding any_links_set by blast
  finally show ?thesis .
qed

lemma portrait_pool_Nil:
  "(portrait_pool vs = [])
     = (\<forall>v\<in>set vs. \<forall>f\<in>set (files_of v). \<not> (truthy (link f) \<and> portrait f = Inr True))"
proof -
  have "(portrait_pool vs = []) = (set (portrait_pool vs) = {})" by simp
  also have "\<dots> = (\<forall>v\<in>set vs. \<forall>f\<in>set (files_of v).
                       \<not> (truthy (link f) \<and> portrait f = Inr True))"
    unfolding portrait_pool_set by blast
  finally show ?thesis .
qed

lemma truthy_the: "truthy x \<Longrightarrow> x = Some (the x) \<and> the x \<noteq> []"
  by (cases x) (simp_all add: truthy_def)

lemma portrait_pool_member:
  "u \<in> set (portrait_pool vs) \<Longrightarrow>
   \<exists>v\<in>set vs. \<exists>f\<in>set (files_of v). link f = Some u \<and> u \<noteq> [] \<and> portrait f = Inr True"
  unfolding portrait_pool_set using truthy_the by fastforce

lemma any_links_member:
  "u \<in> set (any_links vs) \<Longrightarrow>
   \<exists>v\<in>set vs. \<exists>f\<in>set (files_of v). link f = Some u \<and> u \<noteq> []"
  unfolding any_links_set using truthy_the by fastforce

lemma pexels_candidates_typed:
  assumes "\<forall>v\<in>set vs. \<forall>f\<in>set (files_of v).
             truthy (link f) \<longrightarrow> width f \<noteq> Some Null \<and> height f \<noteq> Some Null"
  shows "pexels_candidates vs
           = Inr (if portrait_pool vs = [] then any_links vs else portrait_pool vs)"
  by (simp add: pexels_candidates_def portrait_links_typed[OF assms])

lemma fetch_pexels_success:
  assumes "api_key \<noteq> []" "pexels_search w q api_key = Inr data" "videos data = Some vs"
    "pexels_candidates vs = Inr cs" "cs \<noteq> []"
  shows "\<exists>u. fst (fetch_pexels_video w q api_key s) = Inr u \<and> u \<in> set cs"
proof -
  have "vs = [] \<Longrightarrow> pexels_candidates vs = Inr []"
    by (simp add: pexels_candidates_def portrait_links_def any_links_def)
  with assms(4,5) have "vs \<noteq> []" by auto
  with assms show ?thesis
    using choice_fst[OF assms(5)] by (simp add: fetch_pexels_video_def Let_def)
qed

text \<open>
  Claim C4, as amended. For a response in which no file with a link reports a width or
  height of \<^verbatim>\<open>null\<close>: when some file with a non-empty link has width \<le> height (an absent
  width read as 0, an absent height as 1), the URL returned is the link of such a file;
  when no file with a link is portrait but some file has a link, the URL returned is the
  link of some file, whatever its orientation.
\<close>

theorem pexels_prefers_portrait:
  "api_key \<noteq> [] \<Longrightarrow> pexels_search w q api_key = Inr data \<Longrightarrow> videos data = Some vs \<Longrightarrow>
   \<forall>v\<in>set vs. \<forall>f\<in>set (files_of v).
      truthy (link f) \<longrightarrow> width f \<noteq> Some Null \<and> height f \<noteq> Some Null \<Longrightarrow>
   ((\<exists>v\<in>set vs. \<exists>f\<in>set (files_of v). truthy (link f) \<and> portrait f = Inr True) \<longrightarrow>
      (\<exists>u. fst (fetch_pexels_video w q api_key s) = Inr u
         \<and> (\<exists>v\<in>set vs. \<exists>f\<in>set (files_of v).
               link f = Some u \<and> u \<noteq> [] \<and> portrait f = Inr True)))
   \<and> ((\<forall>v\<in>set vs. \<forall>f\<in>set (files_of v). \<not> (truthy (link f) \<and> portrait f = Inr True))
        \<and> (\<exists>v\<in>set vs. \<exists>f\<in>set (files_of v). truthy (link f)) \<longrightarrow>
      (\<exists>u. fst (fetch_pexels_video w q api_key s) = Inr u
         \<and> (\<exists>v\<in>set vs. \<exists>f\<in>set (files_of v). link f = Some u \<and> u \<noteq> [])))"
proof (intro conjI impI)
  assume a: "api_key \<noteq> []" "pexels_search w q api_key = Inr data" "videos data = Some vs"
  assume h: "\<forall>v\<in>set vs. \<forall>f\<in>set (files_of v).
      truthy (link f) \<longrightarrow> width f \<noteq> Some Null \<and> height f \<noteq> Some Null"
  note c = pexels_candidates_typed[OF h]
  {
    assume "\<exists>v\<in>set vs. \<exists>f\<in>set (files_of v). truthy (link f) \<and> portrait f = Inr True"
    then have ne: "portrait_pool vs \<noteq> []" using portrait_pool_Nil[of vs] by blast
    then have "pexels_candidates vs = Inr (portrait_pool vs)" using c by simp
    from fetch_pexels_success[OF a this ne, of s] obtain u where
      "fst (fetch_pexels_video w q api_key s) = Inr u" "u \<in> set (portrait_pool vs)" by auto
    then show "\<exists>u. fst (fetch_pexels_video w q api_key s) = Inr u
         \<and> (\<exists>v\<in>set vs. \<exists>f\<in>set (files_of v).
               link f = Some u \<and> u \<noteq> [] \<and> portrait f = Inr True)"
      using portrait_pool_member by blast
  }
  {
    assume "(\<forall>v\<in>set vs. \<forall>f\<in>set (files_of v). \<not> (truthy (link f) \<and> portrait f = Inr True))
        \<and> (\<exists>v\<in>set vs. \<exists>f\<in>set (files_of v). truthy (link f))"
    then have "portrait_pool vs = []" and ne: "any_links vs \<noteq> []"
      using portrait_pool_Nil[of vs] any_links_Nil[of vs] by blast+
    then have "pexels_candidates vs = Inr (any_links vs)" using c by simp
    from fetch_pexels_success[OF a this ne, of s] obtain u where
      "fst (fetch_pexels_video w q api_key s) = Inr u" "u \<in> set (any_links vs)" by auto
    then show "\<exists>u. fst (fetch_pexels_video w q api_key s) = Inr u
         \<and> (\<exists>v\<in>set vs. \<exists>f\<in>set (files_of v). link f = Some u \<and> u \<noteq> [])"
      using any_links_member by blast
  }
qed

theorem pexels_prefers_portrait_witness:
  "fst (fetch_pexels_video boundary_world (py ''city night'') (py ''k1'') fresh)
     = Inr (py ''https://videos.pexels.com/c.mp4'')
   \<and> fst (fetch_pexels_video linkless_world (py ''city night'') (py ''k1'') fresh)
     = Inl (RuntimeError (py ''No downloadable Pexels video link found.''))"
  using pexels_prefers_portrait[of "py ''k1''" boundary_world "py ''city night''"
      "\<lparr>videos = Some sample_videos\<rparr>" sample_videos fresh]
    pexels_prefers_portrait[of "py ''k1''" linkless_world "py ''city night''"
      "\<lparr>videos = Some linkless_videos\<rparr>" linkless_videos fresh]
  by (simp add: fetch_pexels_video_def boundary_world_def linkless_world_def sample_videos_def
      linkless_videos_def pexels_candidates_def portrait_links_def any_links_def files_of_def
      truthy_def portrait_def choice_def fresh_def)

text \<open>
  Claim C4 as stated fails: in this response the first file has width 1080 \<le> height 1920
  but no link, the second is landscape and has one; the URL returned is the landscape
  file's.
\<close>

theorem pexels_portrait_without_link:
  "files_of (hd mixed_videos) ! 0
     = \<lparr>link = None, width = Some (Num 1080), height = Some (Num 1920)\<rparr>
   \<and> portrait (files_of (hd mixed_videos) ! 0) = Inr True
   \<and> link (files_of (hd mixed_videos) ! 1) = Some (py ''https://videos.pexels.com/wide.mp4'')
   \<and> portrait (files_of (hd mixed_videos) ! 1) = Inr False
   \<and> pexels_search mixed_world (py ''city night'') (py ''k1'') = Inr \<lparr>videos = Some mixed_videos\<rparr>
   \<and> fst (fetch_pexels_video mixed_world (py ''city night'') (py ''k1'') fresh)
       = Inr (py ''https://videos.pexels.com/wide.mp4'')"
  by (simp add: fetch_pexels_video_def mixed_world_def boundary_world_def mixed_videos_def
      pexels_candidates_def portrait_links_def any_links_def files_of_def
      truthy_def portrait_def choice_def fresh_def)

lemma first_url_Cons:
  "first_url (case hit_videos h of None \<Rightarrow> Map.empty | Some vids \<Rightarrow> vids) (k # ks)
     = (case tier_url h k of
          Some u \<Rightarrow> [u]
        | None \<Rightarrow> first_url (case hit_videos h of None \<Rightarrow> Map.empty | Some vids \<Rightarrow> vids) ks)"
  by (auto simp: tier_url_def truthy_def split: option.splits)

lemma first_url_length:
  "length (first_url (case hit_videos (h::hit) of None \<Rightarrow> Map.empty | Some vids \<Rightarrow> vids) ks) \<le> 1"
proof (induction ks)
  case Nil
  show ?case by simp
next
  case (Cons k ks)
  then show ?case unfolding first_url_Cons by (cases "tier_url h k") simp_all
qed

lemma first_url_Nil:
  "(first_url (case hit_videos h of None \<Rightarrow> Map.empty | Some vids \<Rightarrow> vids) ks = [])
     = (\<forall>k\<in>set ks. tier_url h k = None)"
proof (induction ks)
  case Nil
  show ?case by simp
next
  case (Cons k ks)
  then show ?case unfolding first_url_Cons by (cases "tier_url h k") simp_all
qed

lemma first_url_first:
  "(first_url (case hit_videos h of None \<Rightarrow> Map.empty | Some vids \<Rightarrow> vids) ks = [u])
     = (\<exists>i<length ks. tier_url h (ks ! i) = Some u \<and> (\<forall>j<i. tier_url h (ks ! j) = None))"
proof (induction ks)
  case Nil
  show ?case by simp
next
  case (Cons k ks)
  let ?vids = "case hit_videos h of None \<Rightarrow> Map.empty | Some vids \<Rightarrow> vids"
  show ?case
  proof (cases "tier_url h k")
    case None
    have "(\<exists>i<length (k # ks). tier_url h ((k # ks) ! i) = Some u
             \<and> (\<forall>j<i. tier_url h ((k # ks) ! j) = None))
        = (\<exists>i<length ks. tier_url h (ks ! i) = Some u \<and> (\<forall>j<i. tier_url h (ks ! j) = None))"
      (is "?L = ?R")
    proof
      assume ?L
      then obtain i where i: "i < length (k # ks)" "tier_url h ((k # ks) ! i) = Some u"
        "\<forall>j<i. tier_url h ((k # ks) ! j) = None" by blast
      with None obtain i' where i': "i = Suc i'" by (cases i) auto
      with i(1,2) have "i' < length ks" "tier_url h (ks ! i') = Some u" by auto
      moreover have "\<forall>j<i'. tier_url h (ks ! j) = None"
      proof (intro allI impI)
        fix j assume "j < i'"
        then have "Suc j < i" using i' by simp
        with i(3) have "tier_url h ((k # ks) ! Suc j) = None" by blast
        then show "tier_url h (ks ! j) = None" by simp
      qed
      ultimately show ?R by blast
    next
      assume ?R
      then obtain i where i: "i < length ks" "tier_url h (ks ! i) = Some u"
        "\<forall>j<i. tier_url h (ks ! j) = None" by blast
      have "\<forall>j<Suc i. tier_url h ((k # ks) ! j) = None"
      proof (intro allI impI)
        fix j assume j: "j < Suc i"
        show "tier_url h ((k # ks) ! j) = None"
          using None i(3) j by (cases j) auto
      qed
      with i(1,2) have "Suc i < length (k # ks) \<and> tier_url h ((k # ks) ! Suc i) = Some u
         \<and> (\<forall>j<Suc i. tier_url h ((k # ks) ! j) = None)" by simp
      then show ?L by blast
    qed
    moreover have "first_url ?vids (k # ks) = first_url ?vids ks"
      using None by (simp only: first_url_Cons option.case)
    ultimately show ?thesis using Cons.IH by simp
  next
    case (Some x)
    have f: "first_url ?vids (k # ks) = [x]" using Some by (simp only: first_url_Cons option.case)
    have "(\<exists>i<length (k # ks). tier_url h ((k # ks) ! i) = Some u
             \<and> (\<forall>j<i. tier_url h ((k # ks) ! j) = None)) = (x = u)" (is "?L = _")
    proof
      assume ?L
      then obtain i where i: "i < length (k # ks)" "tier_url h ((k # ks) ! i) = Some u"
        "\<forall>j<i. tier_url h ((k # ks) ! j) = None" by blast
      have "i = 0"
      proof (rule ccontr)
        assume "i \<noteq> 0"
        then have "0 < i" by simp
        with i(3) have "tier_url h ((k # ks) ! 0) = None" by blast
        with Some show False by simp
      qed
      with i(2) Some show "x = u" by simp
    next
      assume "x = u"
      with Some have "0 < length (k # ks) \<and> tier_url h ((k # ks) ! 0) = Some u
         \<and> (\<forall>j<0. tier_url h ((k # ks) ! j) = None)" by simp
      then show ?L by blast
    qed
    with f show ?thesis by simp
  qed
qed

text \<open>
  Claim C5, as amended. For one hit the tiers are tried in the order large, medium, small,
  tiny, and the URL taken is that of the first tier that is present with a non-empty URL;
  a tier that is present with an empty or missing URL is passed over. A hit contributes
  at most one URL, and none when no tier has one.
\<close>

theorem pixabay_first_usable_tier:
  "tiers = [py ''large'', py ''medium'', py ''small'', py ''tiny'']
   \<and> length (hit_candidate h) \<le> 1
   \<and> (hit_candidate h = [u])
       = (\<exists>i<length tiers. tier_url h (tiers ! i) = Some u
            \<and> (\<forall>j<i. tier_url h (tiers ! j) = None))
   \<and> (hit_candidate h = []) = (\<forall>k\<in>set tiers. tier_url h k = None)
   \<and> pixabay_candidates hs = concat (map hit_candidate hs)
   \<and> length (pixabay_candidates hs) \<le> length hs"
proof -
  have "length (pixabay_candidates hs) \<le> length hs"
    unfolding pixabay_candidates_def hit_candidate_def
  proof (induction hs)
    case Nil show ?case by simp
  next
    case (Cons a hs)
    then show ?case using first_url_length[of a tiers] by simp
  qed
  moreover have "tiers = [py ''large'', py ''medium'', py ''small'', py ''tiny'']"
    by (simp add: tiers_def)
  moreover have "length (hit_candidate h) \<le> 1"
    unfolding hit_candidate_def by (rule first_url_length)
  moreover have "(hit_candidate h = [u])
       = (\<exists>i<length tiers. tier_url h (tiers ! i) = Some u
            \<and> (\<forall>j<i. tier_url h (tiers ! j) = None))"
    unfolding hit_candidate_def by (rule first_url_first)
  moreover have "(hit_candidate h = []) = (\<forall>k\<in>set tiers. tier_url h k = None)"
    unfolding hit_candidate_def by (rule first_url_Nil)
  moreover have "pixabay_candidates hs = concat (map hit_candidate hs)"
    by (simp add: pixabay_candidates_def)
  ultimately show ?thesis by (intro conjI)
qed

theorem pixabay_first_usable_tier_witness:
  "hit_candidate linkless_hit = []
   \<and> tier_url empty_large_hit (tiers ! 0) = None
   \<and> tier_url empty_large_hit (tiers ! 1) = Some (py ''https://cdn.pixabay.com/medium.mp4'')
   \<and> hit_candidate empty_large_hit = [py ''https://cdn.pixabay.com/medium.mp4'']
   \<and> pixabay_candidates [linkless_hit, empty_large_hit]
       = [py ''https://cdn.pixabay.com/medium.mp4'']"
  using pixabay_first_usable_tier[of linkless_hit "[]" "[linkless_hit, empty_large_hit]"]
    pixabay_first_usable_tier[of empty_large_hit "py ''https://cdn.pixabay.com/medium.mp4''" "[]"]
  by (simp add: hit_candidate_def pixabay_candidates_def linkless_hit_def empty_large_hit_def
      empty_large_vids_def tier_url_def truthy_def tiers_def)

text \<open>
  Claim C5 as stated fails: in this hit the first tier present is \<^verbatim>\<open>large\<close> (with an empty
  URL), and the URL taken is that of \<^verbatim>\<open>medium\<close>.
\<close>

theorem pixabay_skips_present_tier:
  "hit_videos empty_large_hit = Some empty_large_vids
   \<and> empty_large_vids (py ''large'') = Some \<lparr>url = Some []\<rparr>
   \<and> empty_large_vids (py ''medium'') = Some \<lparr>url = Some (py ''https://cdn.pixabay.com/medium.mp4'')\<rparr>
   \<and> hit_candidate empty_large_hit = [py ''https://cdn.pixabay.com/medium.mp4'']"
  by (simp add: hit_candidate_def empty_large_hit_def empty_large_vids_def truthy_def tiers_def)

section \<open>Failures of the provider fetch\<close>

lemma portrait_pool_subset: "set (portrait_pool vs) \<subseteq> set (any_links vs)"
  unfolding portrait_pool_set any_links_set by blast

lemma pixabay_candidates_Nil:
  "(pixabay_candidates hs = []) = (\<forall>h\<in>set hs. \<forall>k\<in>set tiers. tier_url h k = None)"
  unfolding pixabay_candidates_def hit_candidate_def
  by (simp add: first_url_Nil)

lemma fetch_pixabay_success:
  "api_key \<noteq> [] \<Longrightarrow> pixabay_search w q api_key = Inr data \<Longrightarrow>
   pixabay_candidates (case hits data of None \<Rightarrow> [] | Some xs \<Rightarrow> xs) \<noteq> [] \<Longrightarrow>
   \<exists>u. fst (fetch_pixabay_video w q api_key s) = Inr u
     \<and> u \<in> set (pixabay_candidates (case hits data of None \<Rightarrow> [] | Some xs \<Rightarrow> xs))"
proof -
  let ?hs = "case hits data of None \<Rightarrow> [] | Some xs \<Rightarrow> xs"
  assume a: "api_key \<noteq> []" "pixabay_search w q api_key = Inr data"
    "pixabay_candidates ?hs \<noteq> []"
  have "?hs = [] \<Longrightarrow> pixabay_candidates ?hs = []" by (simp add: pixabay_candidates_def)
  with a(3) have "?hs \<noteq> []" by blast
  with a show ?thesis
    using choice_fst[OF a(3)] by (simp add: fetch_pixabay_video_def Let_def)
qed

lemma fetch_pexels_cases:
  assumes "api_key \<noteq> []" "pexels_search w q api_key = Inr data"
  shows "(case videos data of None \<Rightarrow> [] | Some xs \<Rightarrow> xs) = [] \<Longrightarrow>
         fst (fetch_pexels_video w q api_key s)
           = Inl (RuntimeError (py ''No Pexels videos found for query.''))"
    and "(case videos data of None \<Rightarrow> [] | Some xs \<Rightarrow> xs) \<noteq> [] \<Longrightarrow>
         any_links (case videos data of None \<Rightarrow> [] | Some xs \<Rightarrow> xs) = [] \<Longrightarrow>
         fst (fetch_pexels_video w q api_key s)
           = Inl (RuntimeError (py ''No downloadable Pexels video link found.''))"
    and "\<forall>v\<in>set (case videos data of None \<Rightarrow> [] | Some xs \<Rightarrow> xs). \<forall>f\<in>set (files_of v).
           truthy (link f) \<longrightarrow> width f \<noteq> Some Null \<and> height f \<noteq> Some Null \<Longrightarrow>
         any_links (case videos data of None \<Rightarrow> [] | Some xs \<Rightarrow> xs) \<noteq> [] \<Longrightarrow>
         \<exists>u. fst (fetch_pexels_video w q api_key s) = Inr u
           \<and> u \<in> set (any_links (case videos data of None \<Rightarrow> [] | Some xs \<Rightarrow> xs))"
proof -
  let ?vs = "case videos data of None \<Rightarrow> [] | Some xs \<Rightarrow> xs"
  show "?vs = [] \<Longrightarrow> fst (fetch_pexels_video w q api_key s)
           = Inl (RuntimeError (py ''No Pexels videos found for query.''))"
    using assms by (simp add: fetch_pexels_video_def Let_def)
  show "?vs \<noteq> [] \<Longrightarrow> any_links ?vs = [] \<Longrightarrow> fst (fetch_pexels_video w q api_key s)
           = Inl (RuntimeError (py ''No downloadable Pexels video link found.''))"
  proof -
    assume v: "?vs \<noteq> []" and n: "any_links ?vs = []"
    from n have "\<forall>v\<in>set ?vs. \<forall>f\<in>set (files_of v). \<not> truthy (link f)"
      by (simp only: any_links_Nil)
    then have h: "\<forall>v\<in>set ?vs. \<forall>f\<in>set (files_of v).
        truthy (link f) \<longrightarrow> width f \<noteq> Some Null \<and> height f \<noteq> Some Null" by blast
    from n portrait_pool_subset[of ?vs] have "portrait_pool ?vs = []" by simp
    with pexels_candidates_typed[OF h] n have "pexels_candidates ?vs = Inr []" by simp
    with v assms show ?thesis by (simp add: fetch_pexels_video_def Let_def)
  qed
  show "\<forall>v\<in>set ?vs. \<forall>f\<in>set (files_of v).
           truthy (link f) \<longrightarrow> width f \<noteq> Some Null \<and> height f \<noteq> Some Null \<Longrightarrow>
        any_links ?vs \<noteq> [] \<Longrightarrow> \<exists>u. fst (fetch_pexels_video w q api_key s) = Inr u
           \<and> u \<in> set (any_links ?vs)"
  proof -
    assume h: "\<forall>v\<in>set ?vs. \<forall>f\<in>set (files_of v).
           truthy (link f) \<longrightarrow> width f \<noteq> Some Null \<and> height f \<noteq> Some Null"
    assume ne: "any_links ?vs \<noteq> []"
    let ?cs = "if portrait_pool ?vs = [] then any_links ?vs else portrait_pool ?vs"
    have c: "pexels_candidates ?vs = Inr ?cs" by (rule pexels_candidates_typed[OF h])
    have cne: "?cs \<noteq> []" using ne by simp
    have sub: "set ?cs \<subseteq> set (any_links ?vs)" using portrait_pool_subset[of ?vs] by simp
    have "?vs = [] \<Longrightarrow> any_links ?vs = []" by (simp add: any_links_def)
    with ne have v: "?vs \<noteq> []" by blast
    from choice_fst[OF cne, of w] obtain x where
      "fst (choice w ?cs
              (s\<lparr>trace := trace s @
                   [HttpGet (py ''https://api.pexels.com/videos/search'')
                      [(py ''Authorization'', api_key)]
                      [(py ''query'', q), (py ''per_page'', py ''10''),
                       (py ''orientation'', py ''portrait'')]]\<rparr>)) = Inr x"
      "x \<in> set ?cs" by blast
    with sub have "fst (choice w ?cs
              (s\<lparr>trace := trace s @
                   [HttpGet (py ''https://api.pexels.com/videos/search'')
                      [(py ''Authorization'', api_key)]
                      [(py ''query'', q), (py ''per_page'', py ''10''),
                       (py ''orientation'', py ''portrait'')]]\<rparr>)) = Inr x"
      "x \<in> set (any_links ?vs)" by blast+
    moreover have "fetch_pexels_video w q api_key s = choice w ?cs
              (s\<lparr>trace := trace s @
                   [HttpGet (py ''https://api.pexels.com/videos/search'')
                      [(py ''Authorization'', api_key)]
                      [(py ''query'', q), (py ''per_page'', py ''10''),
                       (py ''orientation'', py ''portrait'')]]\<rparr>)"
      using assms v c cne by (simp add: fetch_pexels_video_def Let_def del: list.map)
    ultimately show ?thesis by auto
  qed
qed

lemma fetch_pixabay_cases:
  assumes "api_key \<noteq> []" "pixabay_search w q api_key = Inr data"
  shows "(case hits data of None \<Rightarrow> [] | Some xs \<Rightarrow> xs) = [] \<Longrightarrow>
         fst (fetch_pixabay_video w q api_key s)
           = Inl (RuntimeError (py ''No Pixabay videos found for query.''))"
    and "(case hits data of None \<Rightarrow> [] | Some xs \<Rightarrow> xs) \<noteq> [] \<Longrightarrow>
         pixabay_candidates (case hits data of None \<Rightarrow> [] | Some xs \<Rightarrow> xs) = [] \<Longrightarrow>
         fst (fetch_pixabay_video w q api_key s)
           = Inl (RuntimeError (py ''No downloadable Pixabay video url found.''))"
  using assms by (simp_all add: fetch_pixabay_video_def Let_def)

text \<open>
  What holds of the three outcomes. With a key and a search that answers: no result gives
  the no-videos error; results of which none carries a usable link give the no-link error;
  for Pixabay, and for a Pexels response in which no file with a link reports a width or
  height of \<^verbatim>\<open>null\<close>, a URL from the results is returned otherwise.
\<close>

lemma fetch_outcomes:
  "api_key \<noteq> [] \<Longrightarrow>
   (pexels_search w q api_key = Inr pdata \<longrightarrow>
      (let vs = (case videos pdata of None \<Rightarrow> [] | Some xs \<Rightarrow> xs) in
         (vs = [] \<longrightarrow>
            fst (fetch_pexels_video w q api_key s)
              = Inl (RuntimeError (py ''No Pexels videos found for query.'')))
       \<and> (vs \<noteq> [] \<and> (\<forall>v\<in>set vs. \<forall>f\<in>set (files_of v). \<not> truthy (link f)) \<longrightarrow>
            fst (fetch_pexels_video w q api_key s)
              = Inl (RuntimeError (py ''No downloadable Pexels video link found.'')))
       \<and> ((\<forall>v\<in>set vs. \<forall>f\<in>set (files_of v).
              truthy (link f) \<longrightarrow> width f \<noteq> Some Null \<and> height f \<noteq> Some Null)
            \<and> (\<exists>v\<in>set vs. \<exists>f\<in>set (files_of v). truthy (link f)) \<longrightarrow>
            (\<exists>u. fst (fetch_pexels_video w q api_key s) = Inr u
               \<and> (\<exists>v\<in>set vs. \<exists>f\<in>set (files_of v). link f = Some u \<and> u \<noteq> [])))))
   \<and> (pixabay_search w q api_key = Inr bdata \<longrightarrow>
      (let hs = (case hits bdata of None \<Rightarrow> [] | Some xs \<Rightarrow> xs) in
         (hs = [] \<longrightarrow>
            fst (fetch_pixabay_video w q api_key s)
              = Inl (RuntimeError (py ''No Pixabay videos found for query.'')))
       \<and> (hs \<noteq> [] \<and> (\<forall>h\<in>set hs. \<forall>k\<in>set tiers. tier_url h k = None) \<longrightarrow>
            fst (fetch_pixabay_video w q api_key s)
              = Inl (RuntimeError (py ''No downloadable Pixabay video url found.'')))
       \<and> ((\<exists>h\<in>set hs. \<exists>k\<in>set tiers. tier_url h k \<noteq> None) \<longrightarrow>
            (\<exists>u. fst (fetch_pixabay_video w q api_key s) = Inr u
               \<and> (\<exists>h\<in>set hs. \<exists>k\<in>set tiers. tier_url h k = Some u)))))
   \<and> RuntimeError (py ''No Pexels videos found for query.'')
       \<noteq> RuntimeError (py ''No downloadable Pexels video link found.'')
   \<and> RuntimeError (py ''No Pixabay videos found for query.'')
       \<noteq> RuntimeError (py ''No downloadable Pixabay video url found.'')"
proof (intro conjI impI)
  assume k: "api_key \<noteq> []"
  {
    assume p: "pexels_search w q api_key = Inr pdata"
    let ?vs = "case videos pdata of None \<Rightarrow> [] | Some xs \<Rightarrow> xs"
    have 1: "?vs = [] \<longrightarrow> fst (fetch_pexels_video w q api_key s)
              = Inl (RuntimeError (py ''No Pexels videos found for query.''))"
      using fetch_pexels_cases(1)[OF k p] by blast
    have 2: "?vs \<noteq> [] \<and> (\<forall>v\<in>set ?vs. \<forall>f\<in>set (files_of v). \<not> truthy (link f)) \<longrightarrow>
            fst (fetch_pexels_video w q api_key s)
              = Inl (RuntimeError (py ''No downloadable Pexels video link found.''))"
      using fetch_pexels_cases(2)[OF k p] any_links_Nil[of ?vs] by blast
    have 3: "(\<forall>v\<in>set ?vs. \<forall>f\<in>set (files_of v).
              truthy (link f) \<longrightarrow> width f \<noteq> Some Null \<and> height f \<noteq> Some Null)
            \<and> (\<exists>v\<in>set ?vs. \<exists>f\<in>set (files_of v). truthy (link f)) \<longrightarrow>
            (\<exists>u. fst (fetch_pexels_video w q api_key s) = Inr u
               \<and> (\<exists>v\<in>set ?vs. \<exists>f\<in>set (files_of v). link f = Some u \<and> u \<noteq> []))"
    proof
      assume a: "(\<forall>v\<in>set ?vs. \<forall>f\<in>set (files_of v).
              truthy (link f) \<longrightarrow> width f \<noteq> Some Null \<and> height f \<noteq> Some Null)
            \<and> (\<exists>v\<in>set ?vs. \<exists>f\<in>set (files_of v). truthy (link f))"
      then have h: "\<forall>v\<in>set ?vs. \<forall>f\<in>set (files_of v).
              truthy (link f) \<longrightarrow> width f \<noteq> Some Null \<and> height f \<noteq> Some Null" by blast
      from a have "any_links ?vs \<noteq> []" using any_links_Nil[of ?vs] by blast
      from fetch_pexels_cases(3)[OF k p h this, of s] any_links_member[of _ ?vs]
      show "\<exists>u. fst (fetch_pexels_video w q api_key s) = Inr u
               \<and> (\<exists>v\<in>set ?vs. \<exists>f\<in>set (files_of v). link f = Some u \<and> u \<noteq> [])"
        by blast
    qed
    from 1 2 3 show "let vs = ?vs in
         (vs = [] \<longrightarrow>
            fst (fetch_pexels_video w q api_key s)
              = Inl (RuntimeError (py ''No Pexels videos found for query.'')))
       \<and> (vs \<noteq> [] \<and> (\<forall>v\<in>set vs. \<forall>f\<in>set (files_of v). \<not> truthy (link f)) \<longrightarrow>
            fst (fetch_pexels_video w q api_key s)
              = Inl (RuntimeError (py ''No downloadable Pexels video link found.'')))
       \<and> ((\<forall>v\<in>set vs. \<forall>f\<in>set (files_of v).
              truthy (link f) \<longrightarrow> width f \<noteq> Some Null \<and> height f \<noteq> Some Null)
            \<and> (\<exists>v\<in>set vs. \<exists>f\<in>set (files_of v). truthy (link f)) \<longrightarrow>
            (\<exists>u. fst (fetch_pexels_video w q api_key s) = Inr u
               \<and> (\<exists>v\<in>set vs. \<exists>f\<in>set (files_of v). link f = Some u \<and> u \<noteq> [])))"
      unfolding Let_def by (intro conjI)
  }
  {
    assume p: "pixabay_search w q api_key = Inr bdata"
    let ?hs = "case hits bdata of None \<Rightarrow> [] | Some xs \<Rightarrow> xs"
    have 1: "?hs = [] \<longrightarrow> fst (fetch_pixabay_video w q api_key s)
              = Inl (RuntimeError (py ''No Pixabay videos found for query.''))"
      using fetch_pixabay_cases(1)[OF k p] by blast
    have 2: "?hs \<noteq> [] \<and> (\<forall>h\<in>set ?hs. \<forall>k\<in>set tiers. tier_url h k = None) \<longrightarrow>
            fst (fetch_pixabay_video w q api_key s)
              = Inl (RuntimeError (py ''No downloadable Pixabay video url found.''))"
      using fetch_pixabay_cases(2)[OF k p] pixabay_candidates_Nil[of ?hs] by blast
    have 3: "(\<exists>h\<in>set ?hs. \<exists>k\<in>set tiers. tier_url h k \<noteq> None) \<longrightarrow>
            (\<exists>u. fst (fetch_pixabay_video w q api_key s) = Inr u
               \<and> (\<exists>h\<in>set ?hs. \<exists>k\<in>set tiers. tier_url h k = Some u))"
    proof
      assume "\<exists>h\<in>set ?hs. \<exists>k\<in>set tiers. tier_url h k \<noteq> None"
      then have "\<not> (\<forall>h\<in>set ?hs. \<forall>k\<in>set tiers. tier_url h k = None)" by auto
      then have "pixabay_candidates ?hs \<noteq> []" by (simp add: pixabay_candidates_Nil)
      from fetch_pixabay_success[OF k p this, of s] obtain u where
        u: "fst (fetch_pixabay_video w q api_key s) = Inr u" "u \<in> set (pixabay_candidates ?hs)"
        by blast
      from u(2) obtain h where h: "h \<in> set ?hs" "u \<in> set (hit_candidate h)"
        by (auto simp: pixabay_candidates_def)
      have "length (hit_candidate h) \<le> 1"
        unfolding hit_candidate_def by (rule first_url_length)
      with h(2) have "hit_candidate h = [u]"
        by (cases "hit_candidate h") auto
      then obtain i where "i < length tiers" "tier_url h (tiers ! i) = Some u"
        unfolding hit_candidate_def first_url_first by blast
      then have "\<exists>k\<in>set tiers. tier_url h k = Some u" using nth_mem by blast
      with u(1) h(1) show "\<exists>u. fst (fetch_pixabay_video w q api_key s) = Inr u
               \<and> (\<exists>h\<in>set ?hs. \<exists>k\<in>set tiers. tier_url h k = Some u)" by blast
    qed
    from 1 2 3 show "let hs = ?hs in
         (hs = [] \<longrightarrow>
            fst (fetch_pixabay_video w q api_key s)
              = Inl (RuntimeError (py ''No Pixabay videos found for query.'')))
       \<and> (hs \<noteq> [] \<and> (\<forall>h\<in>set hs. \<forall>k\<in>set tiers. tier_url h k = None) \<longrightarrow>
            fst (fetch_pixabay_video w q api_key s)
              = Inl (RuntimeError (py ''No downloadable Pixabay video url found.'')))
       \<and> ((\<exists>h\<in>set hs. \<exists>k\<in>set tiers. tier_url h k \<noteq> None) \<longrightarrow>
            (\<exists>u. fst (fetch_pixabay_video w q api_key s) = Inr u
               \<and> (\<exists>h\<in>set hs. \<exists>k\<in>set tiers. tier_url h k = Some u)))"
      unfolding Let_def by (intro conjI)
  }
  show "RuntimeError (py ''No Pexels videos found for query.'')
       \<noteq> RuntimeError (py ''No downloadable Pexels video link found.'')" by simp
  show "RuntimeError (py ''No Pixabay videos found for query.'')
       \<noteq> RuntimeError (py ''No downloadable Pixabay video url found.'')" by simp
qed

lemma fetch_outcomes_samples:
  "fst (fetch_pexels_video empty_world (py ''city night'') (py ''k1'') fresh)
     = Inl (RuntimeError (py ''No Pexels videos found for query.''))
   \<and> fst (fetch_pixabay_video empty_world (py ''city night'') (py ''k2'') fresh)
     = Inl (RuntimeError (py ''No Pixabay videos found for query.''))
   \<and> fst (fetch_pexels_video linkless_world (py ''city night'') (py ''k1'') fresh)
     = Inl (RuntimeError (py ''No downloadable Pexels video link found.''))
   \<and> fst (fetch_pixabay_video linkless_world (py ''city night'') (py ''k2'') fresh)
     = Inl (RuntimeError (py ''No downloadable Pixabay video url found.''))
   \<and> fst (fetch_pexels_video boundary_world (py ''city night'') (py ''k1'') fresh)
     = Inr (py ''https://videos.pexels.com/c.mp4'')
   \<and> fst (fetch_pixabay_video boundary_world (py ''city night'') (py ''k2'') fresh)
     = Inr (py ''https://cdn.pixabay.com/medium.mp4'')"
  by (simp add: fetch_pexels_video_def fetch_pixabay_video_def empty_world_def
      linkless_world_def boundary_world_def sample_videos_def linkless_videos_def
      linkless_hit_def empty_large_hit_def empty_large_vids_def
      pexels_candidates_def portrait_links_def any_links_def files_of_def
      pixabay_candidates_def hit_candidate_def tiers_def
      truthy_def portrait_def choice_def fresh_def)

text \<open>
  Claim C6. The three outcomes hold as the lemmas above state them, but the Pexels fetch
  has a fourth: in this response every file has a link, so a link can be extracted, and the
  fetch ends with \<^verbatim>\<open>TypeError\<close> from the comparison of the \<^verbatim>\<open>null\<close> dimensions of the
  second file, which is neither of the two errors nor a URL.
\<close>

theorem fetch_pexels_fourth_outcome:
  "pexels_search hls_world (py ''city night'') (py ''k1'') = Inr \<lparr>videos = Some hls_videos\<rparr>
   \<and> any_links hls_videos
       = [py ''https://videos.pexels.com/hd.mp4'', py ''https://videos.pexels.com/stream.m3u8'']
   \<and> fetch_pexels_video hls_world (py ''city night'') (py ''k1'') fresh
       = (Inl TypeError,
          fresh\<lparr>trace :=
            [HttpGet (py ''https://api.pexels.com/videos/search'')
               [(py ''Authorization'', py ''k1'')]
               [(py ''query'', py ''city night''), (py ''per_page'', py ''10''),
                (py ''orientation'', py ''portrait'')]]\<rparr>)
   \<and> TypeError \<noteq> RuntimeError (py ''No Pexels videos found for query.'')
   \<and> TypeError \<noteq> RuntimeError (py ''No downloadable Pexels video link found.'')"
  by (simp add: portrait_def portrait_links_def hls_videos_def files_of_def truthy_def
      any_links_def fetch_pexels_video_def pexels_candidates_def hls_world_def
      boundary_world_def fresh_def)

section \<open>Provider selection\<close>

lemma isspace_ascii_upper: "isspace (ascii_upper c) = isspace c"
  by (auto simp: isspace_def ascii_upper_def)

lemma strip_map_ascii_upper: "strip (map ascii_upper s) = map ascii_upper (strip s)"
proof -
  have c: "isspace \<circ> ascii_upper = isspace" by (simp add: fun_eq_iff isspace_ascii_upper)
  have d: "\<And>xs. dropWhile isspace (map ascii_upper xs) = map ascii_upper (dropWhile isspace xs)"
    by (simp add: dropWhile_map c)
  show ?thesis by (simp only: strip_def d rev_map)
qed

lemma upper_ascii: "\<forall>c\<in>set s. c < 128 \<Longrightarrow> upper U s = map ascii_upper s"
  by (induction s) (simp_all add: upper_def upper_char_def)

lemma names_upper:
  "map ascii_upper (py ''PEXELS'') = py ''PEXELS''"
  "map ascii_upper (py ''PIXABAY'') = py ''PIXABAY''"
  "map ascii_upper (py ''BOTH'') = py ''BOTH''"
  by (simp_all add: ascii_upper_def)

lemma pick_provider_ascii:
  assumes "\<forall>c\<in>set p. c < 128"
  shows "pick_provider w p s =
     (if matches_ignoring_case (strip p) (py ''PEXELS'') then (Inr (py ''PEXELS''), s)
      else if matches_ignoring_case (strip p) (py ''PIXABAY'') then (Inr (py ''PIXABAY''), s)
      else choice w [py ''PEXELS'', py ''PIXABAY''] s)"
proof (cases "p = []")
  case True
  have "upper (unicode_upper w) (py ''BOTH'') = py ''BOTH''"
    by (simp add: upper_def upper_char_def ascii_upper_def)
  moreover have "strip (py ''BOTH'') = py ''BOTH''" by (simp add: strip_def isspace_def)
  moreover have "strip [] = []" by (simp add: strip_def)
  ultimately show ?thesis using True
    by (simp add: pick_provider_def matches_ignoring_case_def ascii_upper_def del: list.map)
next
  case False
  have "strip (upper (unicode_upper w) p) = map ascii_upper (strip p)"
    using assms by (simp only: upper_ascii strip_map_ascii_upper)
  then show ?thesis using False
    unfolding pick_provider_def matches_ignoring_case_def names_upper Let_def
    by (simp del: list.map)
qed

lemma matches_name_ascii:
  assumes "matches_ignoring_case p n" "\<forall>c\<in>set n. 65 \<le> c \<and> c \<le> 90"
  shows "(\<forall>c\<in>set p. c < 128) \<and> strip p = p"
proof -
  have len: "length p = length n" using assms(1)
    unfolding matches_ignoring_case_def by (metis length_map)
  have el: "\<And>i. i < length p \<Longrightarrow> ascii_upper (p ! i) = ascii_upper (n ! i)"
    using assms(1) len unfolding matches_ignoring_case_def by (metis nth_map)
  have ok: "\<And>c. c \<in> set p \<Longrightarrow> c < 128 \<and> \<not> isspace c"
  proof -
    fix c assume "c \<in> set p"
    then obtain i where i: "i < length p" "p ! i = c" by (auto simp: in_set_conv_nth)
    with len have "n ! i \<in> set n" by simp
    with assms(2) have "65 \<le> n ! i \<and> n ! i \<le> 90" by blast
    with el[OF i(1)] i(2) show "c < 128 \<and> \<not> isspace c"
      by (auto simp: ascii_upper_def isspace_def split: if_splits)
  qed
  have "strip p = p"
  proof (cases "p = []")
    case True then show ?thesis by (simp add: strip_def)
  next
    case False
    then have "hd p \<in> set p" "last p \<in> set p" by simp_all
    with ok have "\<not> isspace (hd p)" "\<not> isspace (last p)" by blast+
    with False show ?thesis by (rule strip_id)
  qed
  with ok show ?thesis by blast
qed

text \<open>
  Claim C3, as amended. A preference that matches a provider name case-insensitively
  selects that provider, with no random draw. So does an ASCII preference that matches
  after its surrounding whitespace is trimmed. Every other ASCII preference, the default
  \<^verbatim>\<open>"BOTH"\<close> and the empty string among them, gets \<^verbatim>\<open>random.choice\<close> of the two names; and
  for any preference at all the test is made on the upper-cased, trimmed string (for code
  points beyond ASCII the upper-casing is the runtime's). That \<^verbatim>\<open>random.choice\<close> is uniform
  is a property of the library's generator, outside this model.
\<close>

theorem pick_provider_rule:
  "(matches_ignoring_case p (py ''PEXELS'') \<longrightarrow> pick_provider w p s = (Inr (py ''PEXELS''), s))
   \<and> (matches_ignoring_case p (py ''PIXABAY'') \<longrightarrow> pick_provider w p s = (Inr (py ''PIXABAY''), s))
   \<and> ((\<forall>c\<in>set p. c < 128) \<longrightarrow>
        pick_provider w p s =
          (if matches_ignoring_case (strip p) (py ''PEXELS'') then (Inr (py ''PEXELS''), s)
           else if matches_ignoring_case (strip p) (py ''PIXABAY'') then (Inr (py ''PIXABAY''), s)
           else choice w [py ''PEXELS'', py ''PIXABAY''] s))
   \<and> (strip (upper (unicode_upper w) (if p = [] then py ''BOTH'' else p))
          \<notin> {py ''PEXELS'', py ''PIXABAY''} \<longrightarrow>
        pick_provider w p s = choice w [py ''PEXELS'', py ''PIXABAY''] s)
   \<and> pick_provider w (py ''BOTH'') s = choice w [py ''PEXELS'', py ''PIXABAY''] s
   \<and> pick_provider w [] s = choice w [py ''PEXELS'', py ''PIXABAY''] s
   \<and> fst (choice w [py ''PEXELS'', py ''PIXABAY''] s)
        = Inr (if even (randbelow w (draws s) 2) then py ''PEXELS'' else py ''PIXABAY'')"
proof (intro conjI impI)
  assume m: "matches_ignoring_case p (py ''PEXELS'')"
  have "\<forall>c\<in>set (py ''PEXELS''). 65 \<le> c \<and> c \<le> (90::nat)" by simp
  from matches_name_ascii[OF m this] m
  show "pick_provider w p s = (Inr (py ''PEXELS''), s)"
    by (simp add: pick_provider_ascii del: list.map)
next
  assume m: "matches_ignoring_case p (py ''PIXABAY'')"
  have "\<forall>c\<in>set (py ''PIXABAY''). 65 \<le> c \<and> c \<le> (90::nat)" by simp
  from matches_name_ascii[OF m this] have a: "\<forall>c\<in>set p. c < 128" "strip p = p" by blast+
  have "\<not> matches_ignoring_case p (py ''PEXELS'')"
    using m by (simp add: matches_ignoring_case_def ascii_upper_def)
  with a m show "pick_provider w p s = (Inr (py ''PIXABAY''), s)"
    by (simp add: pick_provider_ascii del: list.map)
next
  assume "\<forall>c\<in>set p. c < 128"
  then show "pick_provider w p s =
          (if matches_ignoring_case (strip p) (py ''PEXELS'') then (Inr (py ''PEXELS''), s)
           else if matches_ignoring_case (strip p) (py ''PIXABAY'') then (Inr (py ''PIXABAY''), s)
           else choice w [py ''PEXELS'', py ''PIXABAY''] s)"
    by (rule pick_provider_ascii)
next
  assume "strip (upper (unicode_upper w) (if p = [] then py ''BOTH'' else p))
          \<notin> {py ''PEXELS'', py ''PIXABAY''}"
  then show "pick_provider w p s = choice w [py ''PEXELS'', py ''PIXABAY''] s"
    by (simp add: pick_provider_def Let_def del: list.map)
next
  have "\<forall>c\<in>set (py ''BOTH''). c < (128::nat)" by simp
  from pick_provider_ascii[OF this, of w s]
  show "pick_provider w (py ''BOTH'') s = choice w [py ''PEXELS'', py ''PIXABAY''] s"
    by (simp add: matches_ignoring_case_def ascii_upper_def strip_def isspace_def)
next
  have "\<forall>c\<in>set ([]::pystr). c < (128::nat)" by simp
  from pick_provider_ascii[OF this, of w s]
  show "pick_provider w [] s = choice w [py ''PEXELS'', py ''PIXABAY''] s"
    by (simp add: matches_ignoring_case_def ascii_upper_def strip_def)
next
  have two: "Suc (Suc 0) = 2" by simp
  show "fst (choice w [py ''PEXELS'', py ''PIXABAY''] s)
        = Inr (if even (randbelow w (draws s) 2) then py ''PEXELS'' else py ''PIXABAY'')"
  proof (cases "even (randbelow w (draws s) 2)")
    case True
    then have "randbelow w (draws s) 2 mod 2 = 0" by presburger
    then have "randbelow w (draws s) (Suc (Suc 0)) mod Suc (Suc 0) = 0"
      unfolding two by simp
    with True show ?thesis by (simp add: choice_def del: list.map)
  next
    case False
    then have "randbelow w (draws s) 2 mod 2 = 1" by presburger
    then have "randbelow w (draws s) (Suc (Suc 0)) mod Suc (Suc 0) = Suc 0"
      unfolding two by simp
    with False show ?thesis by (simp add: choice_def del: list.map)
  qed
qed

theorem pick_provider_rule_witness:
  "pick_provider boundary_world (py ''PeXeLs'') fresh = (Inr (py ''PEXELS''), fresh)
   \<and> pick_provider boundary_world (py ''pixabay'') fresh = (Inr (py ''PIXABAY''), fresh)
   \<and> pick_provider boundary_world (py ''  Pexels '') fresh = (Inr (py ''PEXELS''), fresh)
   \<and> pick_provider boundary_world (py ''either'') fresh
       = (Inr (py ''PIXABAY''), fresh\<lparr>draws := 1\<rparr>)"
  using pick_provider_rule[of "py ''PeXeLs''" boundary_world fresh]
    pick_provider_rule[of "py ''pixabay''" boundary_world fresh]
    pick_provider_rule[of "py ''  Pexels ''" boundary_world fresh]
    pick_provider_rule[of "py ''either''" boundary_world fresh]
  by (simp add: matches_ignoring_case_def ascii_upper_def strip_def isspace_def choice_def
      boundary_world_def fresh_def upper_def upper_char_def)

text \<open>
  Claim C3 as stated fails: \<^verbatim>\<open>" pexels"\<close> (with a leading space) matches neither provider
  name case-insensitively, yet the selection is \<^verbatim>\<open>PEXELS\<close> without a random draw, in a world
  whose random choice between the two names is \<^verbatim>\<open>PIXABAY\<close>.
\<close>

theorem pick_provider_trims:
  "\<not> matches_ignoring_case (py '' pexels'') (py ''PEXELS'')
   \<and> \<not> matches_ignoring_case (py '' pexels'') (py ''PIXABAY'')
   \<and> fst (choice boundary_world [py ''PEXELS'', py ''PIXABAY''] fresh) = Inr (py ''PIXABAY'')
   \<and> pick_provider boundary_world (py '' pexels'') fresh = (Inr (py ''PEXELS''), fresh)"
  by (simp add: matches_ignoring_case_def ascii_upper_def strip_def isspace_def choice_def
      boundary_world_def fresh_def upper_def upper_char_def pick_provider_def)

section \<open>The pipeline\<close>

lemma run_effect:
  "run w cmd s = (r, s') \<Longrightarrow>
   \<exists>p. trace s' = trace s @ [Subprocess cmd p] \<and> (r = Inr ()) = (p = Inr 0)"
  by (auto simp: run_def Let_def split: prod.splits sum.splits if_splits)

lemma pick_provider_effect:
  "pick_provider w p s = (r, s') \<Longrightarrow> trace s' = trace s \<and> files s' = files s"
  by (auto simp: pick_provider_def choice_def Let_def split: if_splits)

lemma choice_effect:
  "choice w seq s = (r, s') \<Longrightarrow> trace s' = trace s \<and> files s' = files s"
  by (auto simp: choice_def split: if_splits)

lemma fetch_pexels_effect:
  "fetch_pexels_video w q k s = (r, s') \<Longrightarrow>
   (trace s' = trace s \<or> (\<exists>u h p. trace s' = trace s @ [HttpGet u h p])) \<and> files s' = files s"
  by (auto simp: fetch_pexels_video_def Let_def split: if_splits sum.splits dest!: choice_effect)

lemma fetch_pixabay_effect:
  "fetch_pixabay_video w q k s = (r, s') \<Longrightarrow>
   (trace s' = trace s \<or> (\<exists>u h p. trace s' = trace s @ [HttpGet u h p])) \<and> files s' = files s"
  by (auto simp: fetch_pixabay_video_def Let_def split: if_splits sum.splits dest!: choice_effect)

lemma download_file_effect:
  "download_file w u out s = (r, s') \<Longrightarrow> trace s' = trace s @ [HttpGet u [] []]"
  by (auto simp: download_file_def Let_def split: sum.splits)

lemma ffmpeg_is_not_tts: "ffmpeg_cmd \<noteq> [py ''edge-tts'', a, b, c, d, e, f]"
  by (simp add: ffmpeg_cmd_def)

lemma main_blank_script:
  "strip (env (environ w) (py ''SCRIPT'') []) = [] \<Longrightarrow>
   main w = (Inl (RuntimeError (py ''SCRIPT is empty. Pass script input from n8n.'')),
             \<lparr>files = files0 w, trace = [], draws = 0\<rparr>)"
  by (simp add: main_def Let_def del: list.map)

lemma main_outcome:
  assumes ns: "strip (env (environ w) (py ''SCRIPT'') []) \<noteq> []"
  shows "\<exists>p rest.
     trace (snd (main w))
       = Subprocess [py ''edge-tts'', py ''--voice'',
                     env (environ w) (py ''VOICE'') (py ''en-US-AriaNeural''),
                     py ''--text'', env (environ w) (py ''SCRIPT'') [],
                     py ''--write-media'', audio_wav] p # rest
     \<and> ((\<exists>e. fst (main w) = Inl e)
            \<and> last (trace (snd (main w))) \<noteq> Subprocess ffmpeg_cmd (Inr 0)
          \<or> last (trace (snd (main w))) = Subprocess ffmpeg_cmd (Inr 0)
            \<and> (if (case files (snd (main w)) final_mp4 of None \<Rightarrow> True | Some n \<Rightarrow> n < 10000)
               then fst (main w) = Inl (RuntimeError (py ''final.mp4 not created or too small.''))
               else \<exists>r. fst (main w) = Inr r \<and> output_path r = final_mp4))"
proof -
  let ?script = "env (environ w) (py ''SCRIPT'') []"
  let ?voice = "env (environ w) (py ''VOICE'') (py ''en-US-AriaNeural'')"
  let ?pref = "env (environ w) (py ''PROVIDER'') (py ''BOTH'')"
  let ?query = "safe_filename (env (environ w) (py ''TOPIC'') (py ''trend'')) 60"
  let ?s0 = "\<lparr>files = files0 w, trace = [], draws = 0\<rparr>"
  let ?tts = "[py ''edge-tts'', py ''--voice'', ?voice, py ''--text'', ?script,
               py ''--write-media'', audio_wav]"
  let ?goal = "\<lambda>res sf. \<exists>p rest. trace sf = Subprocess ?tts p # rest
     \<and> ((\<exists>e. res = Inl e) \<and> last (trace sf) \<noteq> Subprocess ffmpeg_cmd (Inr 0)
          \<or> last (trace sf) = Subprocess ffmpeg_cmd (Inr 0)
            \<and> (if (case files sf final_mp4 of None \<Rightarrow> True | Some n \<Rightarrow> n < 10000)
               then res = Inl (RuntimeError (py ''final.mp4 not created or too small.''))
               else \<exists>r. res = Inr r \<and> output_path r = final_mp4))"
  have nt: "\<And>p q. Subprocess ?tts p \<noteq> Subprocess ffmpeg_cmd q"
    using ffmpeg_is_not_tts by (simp del: list.map) metis
  obtain r1 s1 where t1: "tts_edge w ?script ?voice audio_wav ?s0 = (r1, s1)"
    by (meson surj_pair)
  from run_effect[OF t1[unfolded tts_edge_def]] obtain p1 where
    e1: "trace s1 = [Subprocess ?tts p1]" "(r1 = Inr ()) = (p1 = Inr 0)" by auto
  have "?goal (fst (main w)) (snd (main w))"
  proof (cases r1)
    case (Inl e)
    then have "main w = (Inl e, s1)" using ns t1 by (simp add: main_def Let_def del: list.map)
    then show ?thesis using e1(1) nt by (simp del: list.map)
  next
    case Inr
    obtain r2 s2 where t2: "pick_provider w ?pref s1 = (r2, s2)" by (meson surj_pair)
    from pick_provider_effect[OF t2] have e2: "trace s2 = trace s1" by simp
    show ?thesis
    proof (cases r2)
      case (Inl e)
      then have "main w = (Inl e, s2)" using ns t1 t2 Inr
        by (simp add: main_def Let_def del: list.map)
      then show ?thesis using e1(1) e2 nt by (simp del: list.map)
    next
      case chosen: (Inr chosen)
      obtain r3 s3 where t3:
        "(if chosen = py ''PEXELS''
          then fetch_pexels_video w ?query (env (environ w) (py ''PEXELS_API_KEY'') []) s2
          else fetch_pixabay_video w ?query (env (environ w) (py ''PIXABAY_API_KEY'') []) s2)
         = (r3, s3)" by (meson surj_pair)
      have e3: "trace s3 = trace s2 \<or> (\<exists>u h p. trace s3 = trace s2 @ [HttpGet u h p])"
        using t3 fetch_pexels_effect fetch_pixabay_effect by (metis (full_types))
      show ?thesis
      proof (cases r3)
        case (Inl e)
        then have "main w = (Inl e, s3)" using ns t1 t2 t3 Inr chosen
          by (simp add: main_def Let_def del: list.map)
        then show ?thesis using e1(1) e2 e3 nt by (auto simp del: list.map)
      next
        case video_url: (Inr video_url)
        obtain r4 s4 where t4: "download_file w video_url bg_mp4 s3 = (r4, s4)"
          by (meson surj_pair)
        from download_file_effect[OF t4] have e4: "trace s4 = trace s3 @ [HttpGet video_url [] []]" .
        show ?thesis
        proof (cases r4)
          case (Inl e)
          then have "main w = (Inl e, s4)" using ns t1 t2 t3 t4 Inr chosen video_url
            by (simp add: main_def Let_def del: list.map)
          then show ?thesis using e1(1) e2 e3 e4 by (auto simp del: list.map)
        next
          case r4: Inr
          obtain r5 s5 where t5: "run w ffmpeg_cmd s4 = (r5, s5)" by (meson surj_pair)
          from run_effect[OF t5] obtain p5 where
            e5: "trace s5 = trace s4 @ [Subprocess ffmpeg_cmd p5]" "(r5 = Inr ()) = (p5 = Inr 0)"
            by auto
          show ?thesis
          proof (cases r5)
            case (Inl e)
            then have "main w = (Inl e, s5)" using ns t1 t2 t3 t4 t5 Inr chosen video_url r4
              by (simp add: main_def Let_def del: list.map)
            moreover from Inl e5(2) have "p5 \<noteq> Inr 0" by simp
            ultimately show ?thesis using e1(1) e2 e3 e4 e5(1) by (auto simp del: list.map)
          next
            case r5: Inr
            with e5(2) have p5: "p5 = Inr 0" by simp
            have "main w =
              (if (case files s5 final_mp4 of None \<Rightarrow> True | Some n \<Rightarrow> n < 10000)
               then (Inl (RuntimeError (py ''final.mp4 not created or too small.'')), s5)
               else (Inr \<lparr>job_id = env (environ w) (py ''JOB_ID'') (py ''job_'' @ str_int (clock w)),
                          topic = env (environ w) (py ''TOPIC'') (py ''trend''),
                          provider = chosen, voice = ?voice, output_path = final_mp4\<rparr>, s5))"
              using ns t1 t2 t3 t4 t5 Inr chosen video_url r4 r5
              by (simp add: main_def Let_def del: list.map)
            then show ?thesis using e1(1) e2 e3 e4 e5(1) p5 by (auto simp del: list.map)
          qed
        qed
      qed
    qed
  qed
  then show ?thesis by blast
qed

lemmas world_eval =
  main_def Let_def env_def boundary_world_def sample_environ_def tts_edge_def run_def
  sample_subprocess_def ffmpeg_cmd_def audio_wav_def bg_mp4_def final_mp4_def
  pick_provider_def upper_def upper_char_def ascii_upper_def strip_def isspace_def
  safe_filename_def allowed_def py_prefix_def fetch_pexels_video_def pexels_candidates_def
  portrait_links_def any_links_def files_of_def truthy_def portrait_def sample_videos_def
  choice_def download_file_def str_int_def str_nat.simps

text \<open>
  Claim C2. A script that is empty or only whitespace ends the run with the empty-script
  error (the spec's \<^verbatim>\<open>ConfigurationError\<close>) in the initial state: the trace is empty, no
  subprocess was started and no request sent. For any other script the first thing the run
  does is start the synthesizer, with exactly the script text after \<^verbatim>\<open>--text\<close> and the
  configured voice after \<^verbatim>\<open>--voice\<close>.
\<close>

theorem script_required:
  "(strip (env (environ w) (py ''SCRIPT'') []) = [] \<longrightarrow>
      main w = (Inl (RuntimeError (py ''SCRIPT is empty. Pass script input from n8n.'')),
                \<lparr>files = files0 w, trace = [], draws = 0\<rparr>))
   \<and> (strip (env (environ w) (py ''SCRIPT'') []) \<noteq> [] \<longrightarrow>
      (\<exists>p rest. trace (snd (main w))
         = Subprocess [py ''edge-tts'', py ''--voice'',
                       env (environ w) (py ''VOICE'') (py ''en-US-AriaNeural''),
                       py ''--text'', env (environ w) (py ''SCRIPT'') [],
                       py ''--write-media'', py ''out/voice.wav''] p # rest))"
proof (intro conjI impI)
  assume "strip (env (environ w) (py ''SCRIPT'') []) = []"
  then show "main w = (Inl (RuntimeError (py ''SCRIPT is empty. Pass script input from n8n.'')),
                \<lparr>files = files0 w, trace = [], draws = 0\<rparr>)"
    by (rule main_blank_script)
next
  assume "strip (env (environ w) (py ''SCRIPT'') []) \<noteq> []"
  from main_outcome[OF this]
  show "\<exists>p rest. trace (snd (main w))
         = Subprocess [py ''edge-tts'', py ''--voice'',
                       env (environ w) (py ''VOICE'') (py ''en-US-AriaNeural''),
                       py ''--text'', env (environ w) (py ''SCRIPT'') [],
                       py ''--write-media'', py ''out/voice.wav''] p # rest"
    unfolding audio_wav_def by blast
qed

theorem script_required_witness:
  "main blank_script_world
     = (Inl (RuntimeError (py ''SCRIPT is empty. Pass script input from n8n.'')),
        \<lparr>files = Map.empty, trace = [], draws = 0\<rparr>)
   \<and> hd (trace (snd (main boundary_world)))
     = Subprocess [py ''edge-tts'', py ''--voice'', py ''en-US-AriaNeural'',
                   py ''--text'', py ''Hello world'',
                   py ''--write-media'', py ''out/voice.wav''] (Inr 0)"
  using script_required[of blank_script_world] script_required[of boundary_world]
  by (simp add: blank_script_world_def world_eval)

text \<open>
  Claim C1, as amended. A run succeeds only if the final file exists with at least 10000
  bytes, and then the encoder was the last thing started and reported status 0. When the
  encoder was the last thing started and reported status 0, the run raises the validation
  error (the spec's \<^verbatim>\<open>OutputValidationError\<close>) if the final file is absent or smaller than
  10000 bytes, and succeeds otherwise: a file of exactly 10000 bytes is accepted.
\<close>

theorem output_validation:
  "(fst (main w) = Inr r \<longrightarrow>
      (\<exists>n. files (snd (main w)) final_mp4 = Some n \<and> 10000 \<le> n)
      \<and> last (trace (snd (main w))) = Subprocess ffmpeg_cmd (Inr 0))
   \<and> (trace (snd (main w)) \<noteq> []
        \<and> last (trace (snd (main w))) = Subprocess ffmpeg_cmd (Inr 0) \<longrightarrow>
      (if (case files (snd (main w)) final_mp4 of None \<Rightarrow> True | Some n \<Rightarrow> n < 10000)
       then fst (main w) = Inl (RuntimeError (py ''final.mp4 not created or too small.''))
       else \<exists>r'. fst (main w) = Inr r' \<and> output_path r' = final_mp4))"
proof (cases "strip (env (environ w) (py ''SCRIPT'') []) = []")
  case True
  from main_blank_script[OF this] show ?thesis by (simp del: list.map)
next
  case False
  from main_outcome[OF this] have o:
    "(\<exists>e. fst (main w) = Inl e)
        \<and> last (trace (snd (main w))) \<noteq> Subprocess ffmpeg_cmd (Inr 0)
      \<or> last (trace (snd (main w))) = Subprocess ffmpeg_cmd (Inr 0)
        \<and> (if (case files (snd (main w)) final_mp4 of None \<Rightarrow> True | Some n \<Rightarrow> n < 10000)
           then fst (main w) = Inl (RuntimeError (py ''final.mp4 not created or too small.''))
           else \<exists>r. fst (main w) = Inr r \<and> output_path r = final_mp4)"
    by blast
  have 1: "fst (main w) = Inr r \<longrightarrow>
      (\<exists>n. files (snd (main w)) final_mp4 = Some n \<and> 10000 \<le> n)
      \<and> last (trace (snd (main w))) = Subprocess ffmpeg_cmd (Inr 0)"
  proof
    assume s: "fst (main w) = Inr r"
    with o have l: "last (trace (snd (main w))) = Subprocess ffmpeg_cmd (Inr 0)"
      and i: "if (case files (snd (main w)) final_mp4 of None \<Rightarrow> True | Some n \<Rightarrow> n < 10000)
           then fst (main w) = Inl (RuntimeError (py ''final.mp4 not created or too small.''))
           else \<exists>r. fst (main w) = Inr r \<and> output_path r = final_mp4"
      by auto
    from i s have "\<not> (case files (snd (main w)) final_mp4 of None \<Rightarrow> True | Some n \<Rightarrow> n < 10000)"
      by (auto split: if_splits)
    then have "\<exists>n. files (snd (main w)) final_mp4 = Some n \<and> 10000 \<le> n"
      by (cases "files (snd (main w)) final_mp4") auto
    with l show "(\<exists>n. files (snd (main w)) final_mp4 = Some n \<and> 10000 \<le> n)
      \<and> last (trace (snd (main w))) = Subprocess ffmpeg_cmd (Inr 0)" by blast
  qed
  have 2: "trace (snd (main w)) \<noteq> []
        \<and> last (trace (snd (main w))) = Subprocess ffmpeg_cmd (Inr 0) \<longrightarrow>
      (if (case files (snd (main w)) final_mp4 of None \<Rightarrow> True | Some n \<Rightarrow> n < 10000)
       then fst (main w) = Inl (RuntimeError (py ''final.mp4 not created or too small.''))
       else \<exists>r'. fst (main w) = Inr r' \<and> output_path r' = final_mp4)"
    using o by blast
  from 1 2 show ?thesis by (intro conjI)
qed

theorem output_validation_witness:
  "last (trace (snd (main silent_encoder_world))) = Subprocess ffmpeg_cmd (Inr 0)
   \<and> files (snd (main silent_encoder_world)) final_mp4 = None
   \<and> fst (main silent_encoder_world)
       = Inl (RuntimeError (py ''final.mp4 not created or too small.''))"
  using output_validation[of silent_encoder_world]
  by (simp add: silent_encoder_world_def silent_subprocess_def world_eval)

text \<open>
  Claim C1 as stated fails at the boundary: here the encoder reports status 0 and leaves a
  final file of exactly 10000 bytes, which does not exceed 10000, and the run succeeds.
\<close>

theorem output_of_exactly_the_floor:
  "last (trace (snd (main boundary_world))) = Subprocess ffmpeg_cmd (Inr 0)
   \<and> files (snd (main boundary_world)) final_mp4 = Some 10000
   \<and> fst (main boundary_world)
       = Inr \<lparr>job_id = py ''job_1700000000'', topic = py ''city night'',
              provider = py ''PEXELS'', voice = py ''en-US-AriaNeural'',
              output_path = py ''out/final.mp4''\<rparr>"
  by (simp add: world_eval)

end
